theory Spec2Isabelle
  imports Complex_Main "HOL-Library.AList" "HOL-Library.Multiset"
begin

section \<open>The scoring and aggregation engine of \<^verbatim>\<open>analysis.py\<close>\<close>

text \<open>
  The embedding follows \<^verbatim>\<open>src/analysis.py\<close>. Conventions:
  \<^item> a finite Python float is a \<^typ>\<open>real\<close> and rounding is not modelled: here \<open>ln\<close> is
    strictly monotone and a sum does not depend on the order of its summands, which
    \<^verbatim>\<open>math.log\<close> and \<^verbatim>\<open>np.mean\<close> on floats do not guarantee; the statements below
    are chosen so as not to rest on either; the one place where the code can produce NaN, \<^verbatim>\<open>np.mean\<close> of an empty list,
    yields \<open>None\<close> in the type \<open>pyfloat\<close>;
  \<^item> a Python dict that the code iterates or builds is an association list in
    insertion order (\<^verbatim>\<open>d[k] = v\<close> is \<^const>\<open>AList.update\<close>: in place when the key
    exists, appended otherwise); a dict that the code only looks keys up in (the two
    forecast files) is a map;
  \<^item> an exception is the \<open>Inl\<close> side of a sum.
\<close>

subsection \<open>Data\<close>

datatype py_error = ValueError

type_synonym pyfloat = "real option"

type_synonym 'v dict = "(string \<times> 'v) list"

text \<open>One entry of a story's \<^verbatim>\<open>"questions"\<close> list; the code reads only \<^verbatim>\<open>["answer"]\<close>.\<close>

record question =
  answer :: string

text \<open>
  A value of \<^verbatim>\<open>results.json\<close>. Every key the code reads with a default
  (\<^verbatim>\<open>.get\<close>, \<^verbatim>\<open>in\<close>) is optional; \<open>error\<close> holds the truthiness of the value
  stored under \<^verbatim>\<open>"error"\<close> when the key is present.
\<close>

record story_data =
  error :: "bool option"
  Title :: "string option"
  tags :: "string list option"
  questions :: "question list option"

text \<open>A dict with exactly the two keys \<^verbatim>\<open>"flash"\<close> and \<^verbatim>\<open>"flash_lite"\<close>.\<close>

record 'a by_model =
  flash :: 'a
  flash_lite :: 'a

type_synonym forecasts = "string \<rightharpoonup> (string \<rightharpoonup> real)"

text \<open>The local variables of \<^verbatim>\<open>analyze_predictions\<close> that its main loop mutates.\<close>

record analysis_state =
  acc_all_scores :: "real dict dict by_model"
  story_scores :: "real list dict"
  acc_story_titles :: "string dict"
  story_tags :: "string list dict"

text \<open>The tuple that \<^verbatim>\<open>analyze_predictions\<close> returns, field by field.\<close>

record analysis_report =
  all_scores :: "real dict dict by_model"
  story_avg_scores :: "pyfloat dict"
  model_avg_scores :: "pyfloat by_model"
  tag_avg_scores :: "pyfloat dict"
  story_titles :: "string dict"

subsection \<open>\<^verbatim>\<open>calculate_log_score\<close>\<close>

text \<open>\<^verbatim>\<open>math.log\<close> raises \<^verbatim>\<open>ValueError\<close> outside its domain.\<close>

definition math_log :: "real \<Rightarrow> py_error + real" where
  "math_log x = (if x \<le> 0 then Inl ValueError else Inr (ln x))"

definition calculate_log_score :: "real \<Rightarrow> string \<Rightarrow> py_error + real" where
  "calculate_log_score prediction actual =
     (if actual = ''yes'' then math_log (max prediction 0.01)
      else math_log (max (1 - prediction) 0.01))"

text \<open>The specification's wording of the same operation, for comparison.\<close>

definition clip :: "real \<Rightarrow> real \<Rightarrow> real \<Rightarrow> real" where
  "clip x lo hi = min (max x lo) hi"

subsection \<open>Helpers of the main loop\<close>

text \<open>\<^verbatim>\<open>np.mean\<close> of a list of floats: NaN on the empty list, NaN when an element is.\<close>

definition np_mean :: "pyfloat list \<Rightarrow> pyfloat" where
  "np_mean xs =
     (case those xs of
        None \<Rightarrow> None
      | Some ys \<Rightarrow> if ys = [] then None else Some (sum_list ys / real (length ys)))"

text \<open>\<^verbatim>\<open>str\<close> of a non-negative integer: its decimal digits.\<close>

fun str :: "nat \<Rightarrow> string" where
  "str n = (if n < 10 then [''0123456789'' ! n]
            else str (n div 10) @ [''0123456789'' ! (n mod 10)])"

declare str.simps [simp del]

text \<open>
  \<^verbatim>\<open>if story_id not in scores: scores[story_id] = {}\<close> followed by
  \<^verbatim>\<open>scores[story_id][question_idx_str] = log_score\<close>.
\<close>

definition store_score :: "string \<Rightarrow> string \<Rightarrow> real \<Rightarrow> real dict dict \<Rightarrow> real dict dict" where
  "store_score story_id question_idx_str log_score scores =
     AList.map_entry story_id (AList.update question_idx_str log_score)
       (if map_of scores story_id = None then AList.update story_id [] scores else scores)"

text \<open>\<^verbatim>\<open>d[k].append(x)\<close> on a \<^verbatim>\<open>defaultdict(list)\<close>.\<close>

definition append_score :: "string \<Rightarrow> 'a \<Rightarrow> 'a list dict \<Rightarrow> 'a list dict" where
  "append_score k x d = AList.map_default k [x] (\<lambda>xs. xs @ [x]) d"

subsection \<open>\<^verbatim>\<open>analyze_predictions\<close>\<close>

definition init_state :: analysis_state where
  "init_state =
     \<lparr>acc_all_scores = \<lparr>flash = [], flash_lite = []\<rparr>, story_scores = [],
      acc_story_titles = [], story_tags = []\<rparr>"

text \<open>The body of the loop over \<^verbatim>\<open>enumerate(questions)\<close>.\<close>

definition process_flash ::
  "(string \<rightharpoonup> real) \<Rightarrow> string \<Rightarrow> string \<Rightarrow> string \<Rightarrow> analysis_state \<Rightarrow> py_error + analysis_state" where
  "process_flash story_forecasts story_id question_idx_str actual_answer st =
     (case story_forecasts question_idx_str of
        None \<Rightarrow> Inr st
      | Some prediction \<Rightarrow>
          (case calculate_log_score prediction actual_answer of
             Inl e \<Rightarrow> Inl e
           | Inr log_score \<Rightarrow>
               Inr (st\<lparr>acc_all_scores := (acc_all_scores st)
                          \<lparr>flash := store_score story_id question_idx_str log_score
                                      (flash (acc_all_scores st))\<rparr>,
                       story_scores := append_score story_id log_score (story_scores st)\<rparr>)))"

definition process_flash_lite ::
  "(string \<rightharpoonup> real) \<Rightarrow> string \<Rightarrow> string \<Rightarrow> string \<Rightarrow> analysis_state \<Rightarrow> py_error + analysis_state" where
  "process_flash_lite story_forecasts story_id question_idx_str actual_answer st =
     (case story_forecasts question_idx_str of
        None \<Rightarrow> Inr st
      | Some prediction \<Rightarrow>
          (case calculate_log_score prediction actual_answer of
             Inl e \<Rightarrow> Inl e
           | Inr log_score \<Rightarrow>
               Inr (st\<lparr>acc_all_scores := (acc_all_scores st)
                          \<lparr>flash_lite := store_score story_id question_idx_str log_score
                                           (flash_lite (acc_all_scores st))\<rparr>\<rparr>)))"

definition process_question ::
  "(string \<rightharpoonup> real) \<Rightarrow> (string \<rightharpoonup> real) \<Rightarrow> string \<Rightarrow> analysis_state \<Rightarrow> nat \<times> question
     \<Rightarrow> py_error + analysis_state" where
  "process_question flash_story flash_lite_story story_id st iq =
     (let question_idx_str = str (fst iq);
          actual_answer = answer (snd iq)
      in case process_flash flash_story story_id question_idx_str actual_answer st of
           Inl e \<Rightarrow> Inl e
         | Inr st' \<Rightarrow>
             process_flash_lite flash_lite_story story_id question_idx_str actual_answer st')"

fun process_questions ::
  "(string \<rightharpoonup> real) \<Rightarrow> (string \<rightharpoonup> real) \<Rightarrow> string \<Rightarrow> analysis_state \<Rightarrow> (nat \<times> question) list
     \<Rightarrow> py_error + analysis_state" where
  "process_questions flash_story flash_lite_story story_id st [] = Inr st"
| "process_questions flash_story flash_lite_story story_id st (iq # rest) =
     (case process_question flash_story flash_lite_story story_id st iq of
        Inl e \<Rightarrow> Inl e
      | Inr st' \<Rightarrow> process_questions flash_story flash_lite_story story_id st' rest)"

text \<open>The body of the loop over \<^verbatim>\<open>results.items()\<close>; each \<^verbatim>\<open>continue\<close> returns the state.\<close>

definition process_story ::
  "forecasts \<Rightarrow> forecasts \<Rightarrow> analysis_state \<Rightarrow> string \<times> story_data \<Rightarrow> py_error + analysis_state" where
  "process_story flash_forecasts flash_lite_forecasts st item =
     (let story_id = fst item; story_data = snd item
      in if error story_data = Some True then Inr st
         else
           let st1 = st\<lparr>acc_story_titles :=
                          AList.update story_id
                            (case Title story_data of Some t \<Rightarrow> t | None \<Rightarrow> ''Story '' @ story_id)
                            (acc_story_titles st),
                        story_tags :=
                          AList.update story_id
                            (case tags story_data of Some ts \<Rightarrow> ts | None \<Rightarrow> [])
                            (story_tags st)\<rparr>;
               qs = (case questions story_data of Some qs \<Rightarrow> qs | None \<Rightarrow> [])
           in case flash_forecasts story_id of
                None \<Rightarrow> Inr st1
              | Some flash_story \<Rightarrow>
                  (case flash_lite_forecasts story_id of
                     None \<Rightarrow> Inr st1
                   | Some flash_lite_story \<Rightarrow>
                       process_questions flash_story flash_lite_story story_id st1
                         (List.enumerate 0 qs)))"

fun process_stories ::
  "forecasts \<Rightarrow> forecasts \<Rightarrow> analysis_state \<Rightarrow> story_data dict \<Rightarrow> py_error + analysis_state" where
  "process_stories flash_forecasts flash_lite_forecasts st [] = Inr st"
| "process_stories flash_forecasts flash_lite_forecasts st (item # rest) =
     (case process_story flash_forecasts flash_lite_forecasts st item of
        Inl e \<Rightarrow> Inl e
      | Inr st' \<Rightarrow> process_stories flash_forecasts flash_lite_forecasts st' rest)"

text \<open>
  \<^verbatim>\<open>[score for story_scores in scores.values() for score in story_scores.values()]\<close>
\<close>

definition flatten_scores :: "real dict dict \<Rightarrow> real list" where
  "flatten_scores scores = concat (map (\<lambda>entry. map snd (snd entry)) scores)"

text \<open>The loop that fills \<^verbatim>\<open>tag_scores\<close>.\<close>

definition collect_tag_scores :: "string list dict \<Rightarrow> pyfloat dict \<Rightarrow> pyfloat list dict" where
  "collect_tag_scores tags_of avgs =
     fold (\<lambda>entry tag_scores.
             fold (\<lambda>tag. append_score tag (snd entry))
               (case map_of tags_of (fst entry) of Some ts \<Rightarrow> ts | None \<Rightarrow> [])
               tag_scores)
       avgs []"

definition analyze_predictions ::
  "story_data dict \<Rightarrow> forecasts \<Rightarrow> forecasts \<Rightarrow> py_error + analysis_report" where
  "analyze_predictions results flash_forecasts flash_lite_forecasts =
     (case process_stories flash_forecasts flash_lite_forecasts init_state results of
        Inl e \<Rightarrow> Inl e
      | Inr st \<Rightarrow>
          let avgs = map (\<lambda>entry. (fst entry, np_mean (map Some (snd entry)))) (story_scores st)
          in Inr \<lparr>all_scores = acc_all_scores st,
                  story_avg_scores = avgs,
                  model_avg_scores =
                    \<lparr>flash = np_mean (map Some (flatten_scores (flash (acc_all_scores st)))),
                     flash_lite =
                       np_mean (map Some (flatten_scores (flash_lite (acc_all_scores st))))\<rparr>,
                  tag_avg_scores =
                    map (\<lambda>entry. (fst entry, np_mean (snd entry)))
                      (collect_tag_scores (story_tags st) avgs),
                  story_titles = acc_story_titles st\<rparr>)"

subsection \<open>Ranking, as \<^verbatim>\<open>main\<close> does it\<close>

text \<open>
  \<^verbatim>\<open>sorted(story_avg_scores.items(), key=lambda x: x[1], reverse=True)[:5]\<close> and
  \<^verbatim>\<open>sorted(story_avg_scores.items(), key=lambda x: x[1])[:5]\<close>, with the constant 5 as the
  parameter \<open>k\<close>. Python's \<^verbatim>\<open>sorted\<close> is stable, also with \<^verbatim>\<open>reverse=True\<close>, and so
  is \<^const>\<open>sort_key\<close>.
\<close>

text \<open>
  The story averages that \<open>analyze_predictions\<close> returns are never NaN (lemma
  \<open>story_avg_scores_finite\<close>), so the ranking is over reals.
\<close>

definition top_stories :: "nat \<Rightarrow> real dict \<Rightarrow> real dict" where
  "top_stories k avgs = take k (sort_key (\<lambda>x. - snd x) avgs)"

definition bottom_stories :: "nat \<Rightarrow> real dict \<Rightarrow> real dict" where
  "bottom_stories k avgs = take k (sort_key snd avgs)"

subsection \<open>Closed forms used in the proofs\<close>

text \<open>
  The definitions below are not part of the program: they describe, story by story, what
  the loops above compute, and the lemmas of the next section prove that they do.
\<close>

text \<open>The number that \<open>calculate_log_score\<close> returns (it never raises).\<close>

definition score_value :: "real \<Rightarrow> string \<Rightarrow> real" where
  "score_value p a = ln (if a = ''yes'' then max p 0.01 else max (1 - p) 0.01)"

text \<open>
  The (index, score) entries that one model's forecasts for a story yield, over the
  story's enumerated questions: one entry per question index the model forecast.
\<close>

fun scored_entries :: "(string \<rightharpoonup> real) \<Rightarrow> (nat \<times> question) list \<Rightarrow> real dict" where
  "scored_entries fc [] = []"
| "scored_entries fc (iq # iqs) =
     (case fc (str (fst iq)) of
        None \<Rightarrow> scored_entries fc iqs
      | Some p \<Rightarrow> (str (fst iq), score_value p (answer (snd iq))) # scored_entries fc iqs)"

text \<open>
  The join of the loop body: the two models' forecasts for a story that has no error
  flag and is a key of both forecast files; \<open>None\<close> where the loop body hits a
  \<^verbatim>\<open>continue\<close>.
\<close>

definition joined ::
  "forecasts \<Rightarrow> forecasts \<Rightarrow> string \<times> story_data \<Rightarrow> ((string \<rightharpoonup> real) \<times> (string \<rightharpoonup> real)) option" where
  "joined ff fl item =
     (if error (snd item) = Some True then None
      else case ff (fst item) of
             None \<Rightarrow> None
           | Some a \<Rightarrow> (case fl (fst item) of None \<Rightarrow> None | Some b \<Rightarrow> Some (a, b)))"

definition story_questions :: "string \<times> story_data \<Rightarrow> (nat \<times> question) list" where
  "story_questions item =
     List.enumerate 0 (case questions (snd item) of Some qs \<Rightarrow> qs | None \<Rightarrow> [])"

definition flash_entries :: "forecasts \<Rightarrow> forecasts \<Rightarrow> string \<times> story_data \<Rightarrow> real dict" where
  "flash_entries ff fl item =
     (case joined ff fl item of
        None \<Rightarrow> []
      | Some ab \<Rightarrow> scored_entries (fst ab) (story_questions item))"

definition flash_lite_entries :: "forecasts \<Rightarrow> forecasts \<Rightarrow> string \<times> story_data \<Rightarrow> real dict" where
  "flash_lite_entries ff fl item =
     (case joined ff fl item of
        None \<Rightarrow> []
      | Some ab \<Rightarrow> scored_entries (snd ab) (story_questions item))"

definition story_title :: "string \<times> story_data \<Rightarrow> string" where
  "story_title item = (case Title (snd item) of Some t \<Rightarrow> t | None \<Rightarrow> ''Story '' @ fst item)"

definition story_tag_list :: "string \<times> story_data \<Rightarrow> string list" where
  "story_tag_list item = (case tags (snd item) of Some ts \<Rightarrow> ts | None \<Rightarrow> [])"

text \<open>
  A table with one row per story for which \<open>f\<close> yields a non-empty list, in the order of
  \<open>results\<close>; \<open>live\<close> keeps the stories without error flag.
\<close>

definition rows :: "(string \<times> story_data \<Rightarrow> 'a list) \<Rightarrow> story_data dict \<Rightarrow> 'a list dict" where
  "rows f results = map (\<lambda>item. (fst item, f item)) (filter (\<lambda>item. f item \<noteq> []) results)"

definition live :: "story_data dict \<Rightarrow> story_data dict" where
  "live results = filter (\<lambda>item. error (snd item) \<noteq> Some True) results"

text \<open>
  The story ids that occur as keys in a loop state, and the state after the loop has
  run over further stories with fresh ids.
\<close>

definition state_keys :: "analysis_state \<Rightarrow> string set" where
  "state_keys st =
     fst ` set (flash (acc_all_scores st)) \<union> fst ` set (flash_lite (acc_all_scores st)) \<union>
     fst ` set (story_scores st) \<union> fst ` set (acc_story_titles st) \<union> fst ` set (story_tags st)"

definition add_stories :: "forecasts \<Rightarrow> forecasts \<Rightarrow> analysis_state \<Rightarrow> story_data dict \<Rightarrow> analysis_state" where
  "add_stories ff fl st results =
     \<lparr>acc_all_scores =
        \<lparr>flash = flash (acc_all_scores st) @ rows (flash_entries ff fl) results,
         flash_lite = flash_lite (acc_all_scores st) @ rows (flash_lite_entries ff fl) results\<rparr>,
      story_scores = story_scores st @ rows (\<lambda>item. map snd (flash_entries ff fl item)) results,
      acc_story_titles =
        acc_story_titles st @ map (\<lambda>item. (fst item, story_title item)) (live results),
      story_tags = story_tags st @ map (\<lambda>item. (fst item, story_tag_list item)) (live results)\<rparr>"

subsection \<open>The specification's scenario\<close>

text \<open>
  The inputs of the scenario of the specification's section 8, and a story flagged
  with an error, as concrete values to run the program on.
\<close>

definition scenario_story :: story_data where
  "scenario_story =
     \<lparr>error = None, Title = Some ''A'', tags = Some [''mystery''],
      questions = Some [\<lparr>answer = ''yes''\<rparr>, \<lparr>answer = ''no''\<rparr>]\<rparr>"

definition scenario_results :: "story_data dict" where
  "scenario_results = [(''s1'', scenario_story)]"

definition scenario_m1 :: forecasts where
  "scenario_m1 = [''s1'' \<mapsto> [''0'' \<mapsto> 0.8, ''1'' \<mapsto> 0.3]]"

definition scenario_m2 :: forecasts where
  "scenario_m2 = [''s1'' \<mapsto> [''0'' \<mapsto> 0.6, ''1'' \<mapsto> 0.4]]"

definition failed_story :: story_data where
  "failed_story =
     \<lparr>error = Some True, Title = Some ''B'', tags = Some [''mystery''],
      questions = Some [\<lparr>answer = ''yes''\<rparr>]\<rparr>"

definition scenario_with_failure :: "story_data dict" where
  "scenario_with_failure = [(''s1'', scenario_story), (''s2'', failed_story)]"

section \<open>Properties of \<^verbatim>\<open>calculate_log_score\<close>\<close>

text \<open>The argument of \<^verbatim>\<open>math.log\<close> is at least 0.01, so the call never raises.\<close>

lemma calculate_log_score_Inr:
  "calculate_log_score p a = Inr (ln (if a = ''yes'' then max p 0.01 else max (1 - p) 0.01))"
  by (simp add: calculate_log_score_def math_log_def max_def)

text \<open>
  Claim C1, as amended. The code has no validation of \<open>actual\<close>: every value other than
  \<^verbatim>\<open>"yes"\<close> takes the \<^verbatim>\<open>else\<close> branch and is scored exactly as \<^verbatim>\<open>"no"\<close> is, and no call
  of \<open>calculate_log_score\<close> raises.
\<close>

theorem calculate_log_score_unvalidated:
  "(\<forall>p actual. actual \<noteq> ''yes'' \<longrightarrow>
      calculate_log_score p actual = Inr (ln (max (1 - p) 0.01)) \<and>
      calculate_log_score p actual = calculate_log_score p ''no'') \<and>
   (\<forall>p actual. \<exists>s. calculate_log_score p actual = Inr s)"
  by (simp add: calculate_log_score_Inr)

theorem calculate_log_score_unvalidated_witness:
  "''maybe'' \<noteq> ''yes'' \<and>
   calculate_log_score (1 / 4) ''maybe'' = Inr (ln (max (1 - 1 / 4) 0.01)) \<and>
   calculate_log_score (1 / 4) ''maybe'' = calculate_log_score (1 / 4) ''no''"
proof -
  have h: "''maybe'' \<noteq> ''yes''"
    by simp
  from calculate_log_score_unvalidated [THEN conjunct1, rule_format, OF h, of "1 / 4"] h
  show ?thesis by blast
qed

text \<open>
  Claim C1, as stated, fails: on the ground truth \<^verbatim>\<open>"ambiguous"\<close> and the prediction 0.5
  the code returns the log score \<open>ln 0.5\<close> instead of raising.
\<close>

theorem calculate_log_score_ambiguous_counterexample:
  "calculate_log_score (1 / 2) ''ambiguous'' = Inr (ln (1 / 2))"
  by (simp add: calculate_log_score_def math_log_def)

text \<open>
  Claim C4, as amended. The score for \<^verbatim>\<open>"yes"\<close> is non-decreasing in \<open>p\<close> over \<open>[0, 1]\<close> and,
  because of the clip at 0.01, constant (\<open>ln 0.01\<close>) over \<open>[0, 0.01]\<close>; the score for \<^verbatim>\<open>"no"\<close>
  is non-increasing over \<open>[0, 1]\<close> and constant over \<open>[0.99, 1]\<close>. Strictness is stated only
  between distinct whole percentages \<open>k / 100\<close>, the predictions that the forecast files
  hold (from 1 to 100 per cent for \<^verbatim>\<open>"yes"\<close>, from 0 to 99 per cent for \<^verbatim>\<open>"no"\<close>): two floats
  that are closer than that can round to the same logarithm, which the reals of this
  model do not show.
\<close>

theorem calculate_log_score_monotone:
  "(\<forall>p q. 0 \<le> p \<and> p \<le> q \<and> q \<le> 1 \<longrightarrow>
      (\<exists>s t. calculate_log_score p ''yes'' = Inr s \<and> calculate_log_score q ''yes'' = Inr t \<and> s \<le> t)) \<and>
   (\<forall>p q. 0 \<le> p \<and> p \<le> q \<and> q \<le> 1 \<longrightarrow>
      (\<exists>s t. calculate_log_score p ''no'' = Inr s \<and> calculate_log_score q ''no'' = Inr t \<and> t \<le> s)) \<and>
   (\<forall>p. 0 \<le> p \<and> p \<le> 0.01 \<longrightarrow> calculate_log_score p ''yes'' = Inr (ln 0.01)) \<and>
   (\<forall>p. 0.99 \<le> p \<and> p \<le> 1 \<longrightarrow> calculate_log_score p ''no'' = Inr (ln 0.01)) \<and>
   (\<forall>j k :: nat. 1 \<le> j \<and> j < k \<and> k \<le> 100 \<longrightarrow>
      (\<exists>s t. calculate_log_score (real j / 100) ''yes'' = Inr s \<and>
             calculate_log_score (real k / 100) ''yes'' = Inr t \<and> s < t)) \<and>
   (\<forall>j k :: nat. j < k \<and> k \<le> 99 \<longrightarrow>
      (\<exists>s t. calculate_log_score (real j / 100) ''no'' = Inr s \<and>
             calculate_log_score (real k / 100) ''no'' = Inr t \<and> t < s))"
proof (intro conjI allI impI)
  fix p q :: real
  assume h: "0 \<le> p \<and> p \<le> q \<and> q \<le> 1"
  then have "max p 0.01 \<le> max q 0.01" "0 < max p 0.01"
    by (simp_all add: max_def)
  then have "ln (max p 0.01) \<le> ln (max q 0.01)"
    by simp
  then show "\<exists>s t. calculate_log_score p ''yes'' = Inr s \<and>
      calculate_log_score q ''yes'' = Inr t \<and> s \<le> t"
    by (simp add: calculate_log_score_Inr)
next
  fix p q :: real
  assume h: "0 \<le> p \<and> p \<le> q \<and> q \<le> 1"
  then have "max (1 - q) 0.01 \<le> max (1 - p) 0.01" "0 < max (1 - q) 0.01"
    by (simp_all add: max_def)
  then have "ln (max (1 - q) 0.01) \<le> ln (max (1 - p) 0.01)"
    by simp
  then show "\<exists>s t. calculate_log_score p ''no'' = Inr s \<and>
      calculate_log_score q ''no'' = Inr t \<and> t \<le> s"
    by (simp add: calculate_log_score_Inr)
next
  fix p :: real
  assume "0 \<le> p \<and> p \<le> 0.01"
  then show "calculate_log_score p ''yes'' = Inr (ln 0.01)"
    by (simp add: calculate_log_score_Inr max_def)
next
  fix p :: real
  assume "0.99 \<le> p \<and> p \<le> 1"
  then show "calculate_log_score p ''no'' = Inr (ln 0.01)"
    by (simp add: calculate_log_score_Inr max_def)
next
  fix j k :: nat
  assume h: "1 \<le> j \<and> j < k \<and> k \<le> 100"
  then have "max (real j / 100) 0.01 = real j / 100" "max (real k / 100) 0.01 = real k / 100"
    by (simp_all add: max_def)
  moreover from h have "0 < real j / 100" "real j / 100 < real k / 100"
    by simp_all
  ultimately show "\<exists>s t. calculate_log_score (real j / 100) ''yes'' = Inr s \<and>
      calculate_log_score (real k / 100) ''yes'' = Inr t \<and> s < t"
    by (simp add: calculate_log_score_Inr)
next
  fix j k :: nat
  assume h: "j < k \<and> k \<le> 99"
  then have "real k \<le> 99" "real j < real k"
    by simp_all
  then have "max (1 - real j / 100) 0.01 = 1 - real j / 100"
    "max (1 - real k / 100) 0.01 = 1 - real k / 100"
    "0 < 1 - real k / 100" "1 - real k / 100 < 1 - real j / 100"
    by (simp_all add: max_def)
  then show "\<exists>s t. calculate_log_score (real j / 100) ''no'' = Inr s \<and>
      calculate_log_score (real k / 100) ''no'' = Inr t \<and> t < s"
    by (simp add: calculate_log_score_Inr)
qed

theorem calculate_log_score_monotone_witness:
  "(0 :: real) \<le> 1 / 2 \<and> (1 / 2 :: real) \<le> 3 / 4 \<and> (3 / 4 :: real) \<le> 1 \<and>
   (\<exists>s t. calculate_log_score (1 / 2) ''yes'' = Inr s \<and>
          calculate_log_score (3 / 4) ''yes'' = Inr t \<and> s \<le> t) \<and>
   (\<exists>s t. calculate_log_score (1 / 2) ''no'' = Inr s \<and>
          calculate_log_score (3 / 4) ''no'' = Inr t \<and> t \<le> s) \<and>
   (0 :: real) \<le> 1 / 200 \<and> (1 / 200 :: real) \<le> 0.01 \<and>
   calculate_log_score (1 / 200) ''yes'' = Inr (ln 0.01) \<and>
   (0.99 :: real) \<le> 1 \<and> calculate_log_score 1 ''no'' = Inr (ln 0.01) \<and>
   (1 :: nat) \<le> 2 \<and> (2 :: nat) < 3 \<and> (3 :: nat) \<le> 100 \<and>
   (\<exists>s t. calculate_log_score (real 2 / 100) ''yes'' = Inr s \<and>
          calculate_log_score (real 3 / 100) ''yes'' = Inr t \<and> s < t) \<and>
   (98 :: nat) < 99 \<and> (99 :: nat) \<le> 99 \<and>
   (\<exists>s t. calculate_log_score (real 98 / 100) ''no'' = Inr s \<and>
          calculate_log_score (real 99 / 100) ''no'' = Inr t \<and> t < s)"
proof -
  have a: "(0 :: real) \<le> 1 / 2 \<and> (1 / 2 :: real) \<le> 3 / 4 \<and> (3 / 4 :: real) \<le> 1"
    by simp
  have c: "(0 :: real) \<le> 1 / 200 \<and> (1 / 200 :: real) \<le> 0.01"
    by simp
  have d: "(0.99 :: real) \<le> 1 \<and> (1 :: real) \<le> 1"
    by simp
  have e: "(1 :: nat) \<le> 2 \<and> (2 :: nat) < 3 \<and> (3 :: nat) \<le> 100"
    by simp
  have f: "(98 :: nat) < 99 \<and> (99 :: nat) \<le> 99"
    by simp
  note m = calculate_log_score_monotone
  from m [THEN conjunct1, rule_format, OF a]
    m [THEN conjunct2, THEN conjunct1, rule_format, OF a]
    m [THEN conjunct2, THEN conjunct2, THEN conjunct1, rule_format, OF c]
    m [THEN conjunct2, THEN conjunct2, THEN conjunct2, THEN conjunct1, rule_format, OF d]
    m [THEN conjunct2, THEN conjunct2, THEN conjunct2, THEN conjunct2, THEN conjunct1,
       rule_format, OF e]
    m [THEN conjunct2, THEN conjunct2, THEN conjunct2, THEN conjunct2, THEN conjunct2,
       rule_format, OF f]
    a c d e f
  show ?thesis by blast
qed

text \<open>
  Claim C4, as stated, fails inside \<open>(0, 1]\<close> and inside \<open>[0, 1)\<close>: 0.005 < 0.01 get the
  same score for \<^verbatim>\<open>"yes"\<close>, and 0.99 < 0.995 get the same score for \<^verbatim>\<open>"no"\<close>.
\<close>

theorem calculate_log_score_plateau_counterexample:
  "(0 :: real) < 0.005 \<and> (0.005 :: real) < 0.01 \<and> (0.01 :: real) \<le> 1 \<and>
   calculate_log_score 0.005 ''yes'' = calculate_log_score 0.01 ''yes'' \<and>
   (0 :: real) \<le> 0.99 \<and> (0.99 :: real) < 0.995 \<and> (0.995 :: real) < 1 \<and>
   calculate_log_score 0.99 ''no'' = calculate_log_score 0.995 ''no''"
  by (simp add: calculate_log_score_def math_log_def)

text \<open>
  Claim C5. For every \<open>p\<close> in \<open>[0, 1]\<close> the code's \<^verbatim>\<open>max(x, 0.01)\<close> agrees with the
  specification's \<open>clip x 0.01 1.0\<close>, for both answers; the three boundary values follow.
\<close>

theorem calculate_log_score_clip:
  "(\<forall>p. 0 \<le> p \<and> p \<le> 1 \<longrightarrow>
      calculate_log_score p ''yes'' = Inr (ln (clip p 0.01 1.0)) \<and>
      calculate_log_score p ''no'' = Inr (ln (clip (1 - p) 0.01 1.0))) \<and>
   calculate_log_score 0.0 ''yes'' = Inr (ln 0.01) \<and>
   calculate_log_score 0.01 ''yes'' = Inr (ln 0.01) \<and>
   calculate_log_score 1.0 ''no'' = Inr (ln 0.01)"
  by (simp add: calculate_log_score_Inr clip_def max_def min_def)

theorem calculate_log_score_clip_witness:
  "(0 :: real) \<le> 4 / 5 \<and> (4 / 5 :: real) \<le> 1 \<and>
   calculate_log_score (4 / 5) ''yes'' = Inr (ln (clip (4 / 5) 0.01 1.0)) \<and>
   calculate_log_score (4 / 5) ''no'' = Inr (ln (clip (1 - 4 / 5) 0.01 1.0))"
proof -
  have h: "(0 :: real) \<le> 4 / 5 \<and> (4 / 5 :: real) \<le> 1"
    by simp
  from calculate_log_score_clip [THEN conjunct1, rule_format, OF h] h
  show ?thesis by blast
qed

text \<open>
  Claim C6. For every prediction in \<open>[0, 1]\<close> and every answer in \<open>{"yes", "no"}\<close> the call
  returns a score, and the score is at most 0.
\<close>

theorem calculate_log_score_nonpositive:
  "0 \<le> p \<Longrightarrow> p \<le> 1 \<Longrightarrow> actual = ''yes'' \<or> actual = ''no'' \<Longrightarrow>
   \<exists>s. calculate_log_score p actual = Inr s \<and> s \<le> 0"
  by (auto simp: calculate_log_score_Inr max_def)

theorem calculate_log_score_nonpositive_witness:
  "(0 :: real) \<le> 3 / 10 \<and> (3 / 10 :: real) \<le> 1 \<and>
   (\<exists>s. calculate_log_score (3 / 10) ''no'' = Inr s \<and> s \<le> 0)"
proof -
  have a: "(0 :: real) \<le> 3 / 10" and b: "(3 / 10 :: real) \<le> 1"
    by simp_all
  from calculate_log_score_nonpositive [OF a b, of "''no''"] a b
  show ?thesis by blast
qed

section \<open>Ranking\<close>


lemma take_sort_key_least:
  fixes f :: "'a \<Rightarrow> real"
  assumes "x \<in> set xs" "x \<notin> set (take k (sort_key f xs))" "y \<in> set (take k (sort_key f xs))"
  shows "f y \<le> f x"
proof -
  let ?s = "sort_key f xs"
  have "x \<in> set ?s" using assms(1) by simp
  then have "x \<in> set (take k ?s) \<union> set (drop k ?s)"
    by (metis append_take_drop_id set_append)
  with assms(2) have x: "x \<in> set (drop k ?s)" by blast
  have "sorted (map f (take k ?s @ drop k ?s))"
    by simp
  then have "\<forall>a\<in>set (take k ?s). \<forall>b\<in>set (drop k ?s). f a \<le> f b"
    unfolding map_append sorted_append by auto
  with x assms(3) show ?thesis by blast
qed

lemma take_sort_key_props:
  fixes f :: "'a \<Rightarrow> real"
  shows "length (take k (sort_key f xs)) = min k (length xs)"
    and "set (take k (sort_key f xs)) \<subseteq> set xs"
    and "sorted (map f (take k (sort_key f xs)))"
    and "distinct xs \<Longrightarrow> distinct (take k (sort_key f xs))"
proof -
  show "length (take k (sort_key f xs)) = min k (length xs)" by (simp add: min.commute)
  show "set (take k (sort_key f xs)) \<subseteq> set xs"
    using set_take_subset [of k "sort_key f xs"] by simp
  show "sorted (map f (take k (sort_key f xs)))"
    by (simp add: take_map [symmetric])
  show "distinct xs \<Longrightarrow> distinct (take k (sort_key f xs))"
    by simp
qed

lemma take_sort_key_mset:
  fixes f :: "'a \<Rightarrow> real"
  shows "mset (take k (sort_key f xs)) \<subseteq># mset xs"
    and "mset xs - mset (take k (sort_key f xs)) = mset (drop k (sort_key f xs))"
proof -
  have "mset (take k (sort_key f xs)) + mset (drop k (sort_key f xs)) = mset (sort_key f xs)"
    by (simp flip: mset_append)
  then have e: "mset (take k (sort_key f xs)) + mset (drop k (sort_key f xs)) = mset xs"
    by simp
  show "mset (take k (sort_key f xs)) \<subseteq># mset xs"
    by (subst e [symmetric]) simp
  show "mset xs - mset (take k (sort_key f xs)) = mset (drop k (sort_key f xs))"
    by (subst e [symmetric]) simp
qed

lemma take_sort_key_rest:
  fixes f :: "'a \<Rightarrow> real"
  assumes "x \<in># mset xs - mset (take k (sort_key f xs))" "y \<in> set (take k (sort_key f xs))"
  shows "f y \<le> f x"
proof -
  let ?s = "sort_key f xs"
  from assms(1) have x: "x \<in> set (drop k ?s)"
    by (simp add: take_sort_key_mset(2))
  have "sorted (map f (take k ?s @ drop k ?s))"
    by simp
  then have "\<forall>a\<in>set (take k ?s). \<forall>b\<in>set (drop k ?s). f a \<le> f b"
    unfolding map_append sorted_append by auto
  with x assms(2) show ?thesis by blast
qed

lemma take_sort_key_distinct_keys:
  fixes f :: "('k \<times> 'v) \<Rightarrow> real"
  assumes "distinct (map fst xs)"
  shows "distinct (map fst (take k (sort_key f xs)))"
proof -
  have "mset (map fst (sort_key f xs)) = mset (map fst xs)"
    by simp
  then have "distinct (map fst (sort_key f xs)) \<longleftrightarrow> distinct (map fst xs)"
    by (rule mset_eq_imp_distinct_iff)
  with assms have "distinct (take k (map fst (sort_key f xs)))"
    by simp
  then show ?thesis by (simp add: take_map)
qed

text \<open>
  Claim C9. \<open>top_stories k\<close> holds \<open>min k n\<close> entries of the mapping, each as often as the
  mapping does (so \<open>k\<close> different stories when the ids are distinct, as in a dict), in
  descending score order, and every entry left out scores at most as much as every entry
  kept; \<open>bottom_stories k\<close> is the same with ascending order and the lowest scores. On the
  specification's example with \<open>k = 2\<close> the two lists of ids are \<open>[c, a]\<close> and \<open>[b, a]\<close>.
\<close>

theorem rank_top_bottom:
  "length (top_stories k avgs) = min k (length avgs) \<and>
   set (top_stories k avgs) \<subseteq> set avgs \<and>
   mset (top_stories k avgs) \<subseteq># mset avgs \<and>
   (distinct (map fst avgs) \<longrightarrow> distinct (map fst (top_stories k avgs))) \<and>
   sorted (rev (map snd (top_stories k avgs))) \<and>
   (\<forall>x\<in>set avgs. x \<notin> set (top_stories k avgs) \<longrightarrow>
      (\<forall>y\<in>set (top_stories k avgs). snd x \<le> snd y)) \<and>
   (\<forall>x\<in>#mset avgs - mset (top_stories k avgs).
      \<forall>y\<in>set (top_stories k avgs). snd x \<le> snd y) \<and>
   length (bottom_stories k avgs) = min k (length avgs) \<and>
   set (bottom_stories k avgs) \<subseteq> set avgs \<and>
   mset (bottom_stories k avgs) \<subseteq># mset avgs \<and>
   (distinct (map fst avgs) \<longrightarrow> distinct (map fst (bottom_stories k avgs))) \<and>
   sorted (map snd (bottom_stories k avgs)) \<and>
   (\<forall>x\<in>set avgs. x \<notin> set (bottom_stories k avgs) \<longrightarrow>
      (\<forall>y\<in>set (bottom_stories k avgs). snd y \<le> snd x)) \<and>
   (\<forall>x\<in>#mset avgs - mset (bottom_stories k avgs).
      \<forall>y\<in>set (bottom_stories k avgs). snd y \<le> snd x) \<and>
   map fst (top_stories 2 [(''a'', - 0.1), (''b'', - 0.5), (''c'', - 0.05)]) = [''c'', ''a''] \<and>
   map fst (bottom_stories 2 [(''a'', - 0.1), (''b'', - 0.5), (''c'', - 0.05)]) = [''b'', ''a'']"
proof (intro conjI ballI impI)
  let ?neg = "\<lambda>x :: string \<times> real. - snd x"
  show "length (top_stories k avgs) = min k (length avgs)"
    unfolding top_stories_def by (rule take_sort_key_props)
  show "set (top_stories k avgs) \<subseteq> set avgs"
    unfolding top_stories_def by (rule take_sort_key_props)
  show "mset (top_stories k avgs) \<subseteq># mset avgs"
    unfolding top_stories_def by (rule take_sort_key_mset)
  have "sorted (map ?neg (top_stories k avgs))"
    unfolding top_stories_def by (rule take_sort_key_props)
  then have "sorted_wrt (\<lambda>a b. snd b \<le> snd a) (top_stories k avgs)"
    by (simp add: sorted_wrt_map)
  then show "sorted (rev (map snd (top_stories k avgs)))"
    by (simp add: sorted_wrt_rev sorted_wrt_map rev_map [symmetric])
  show "length (bottom_stories k avgs) = min k (length avgs)"
    unfolding bottom_stories_def by (rule take_sort_key_props)
  show "set (bottom_stories k avgs) \<subseteq> set avgs"
    unfolding bottom_stories_def by (rule take_sort_key_props)
  show "mset (bottom_stories k avgs) \<subseteq># mset avgs"
    unfolding bottom_stories_def by (rule take_sort_key_mset)
  show "sorted (map snd (bottom_stories k avgs))"
    unfolding bottom_stories_def by (rule take_sort_key_props)
  show "map fst (top_stories 2 [(''a'', - 0.1), (''b'', - 0.5), (''c'', - 0.05)]) = [''c'', ''a'']"
    by (simp add: top_stories_def)
  show "map fst (bottom_stories 2 [(''a'', - 0.1), (''b'', - 0.5), (''c'', - 0.05)]) = [''b'', ''a'']"
    by (simp add: bottom_stories_def)
next
  assume "distinct (map fst avgs)"
  then show "distinct (map fst (top_stories k avgs))"
    unfolding top_stories_def by (rule take_sort_key_distinct_keys)
next
  assume "distinct (map fst avgs)"
  then show "distinct (map fst (bottom_stories k avgs))"
    unfolding bottom_stories_def by (rule take_sort_key_distinct_keys)
next
  fix x y
  assume "x \<in> set avgs" "x \<notin> set (top_stories k avgs)" "y \<in> set (top_stories k avgs)"
  then have "- snd y \<le> - snd x"
    unfolding top_stories_def by (rule take_sort_key_least)
  then show "snd x \<le> snd y" by simp
next
  fix x y
  assume "x \<in># mset avgs - mset (top_stories k avgs)" "y \<in> set (top_stories k avgs)"
  then have "- snd y \<le> - snd x"
    unfolding top_stories_def by (rule take_sort_key_rest)
  then show "snd x \<le> snd y" by simp
next
  fix x y
  assume "x \<in> set avgs" "x \<notin> set (bottom_stories k avgs)" "y \<in> set (bottom_stories k avgs)"
  then show "snd y \<le> snd x"
    unfolding bottom_stories_def by (rule take_sort_key_least)
next
  fix x y
  assume "x \<in># mset avgs - mset (bottom_stories k avgs)" "y \<in> set (bottom_stories k avgs)"
  then show "snd y \<le> snd x"
    unfolding bottom_stories_def by (rule take_sort_key_rest)
qed

theorem rank_top_bottom_witness:
  "distinct (map fst [(''a'', - 0.1), (''b'', - 0.5), (''c'', - 0.05 :: real)]) \<and>
   distinct (map fst (top_stories 2 [(''a'', - 0.1), (''b'', - 0.5), (''c'', - 0.05)])) \<and>
   distinct (map fst (bottom_stories 2 [(''a'', - 0.1), (''b'', - 0.5), (''c'', - 0.05)])) \<and>
   (''b'', - 0.5) \<in> set [(''a'', - 0.1), (''b'', - 0.5), (''c'', - 0.05 :: real)] \<and>
   (''b'', - 0.5) \<notin> set (top_stories 2 [(''a'', - 0.1), (''b'', - 0.5), (''c'', - 0.05)]) \<and>
   (''b'', - 0.5) \<in># mset [(''a'', - 0.1), (''b'', - 0.5), (''c'', - 0.05 :: real)] -
       mset (top_stories 2 [(''a'', - 0.1), (''b'', - 0.5), (''c'', - 0.05)]) \<and>
   (''c'', - 0.05) \<in> set (top_stories 2 [(''a'', - 0.1), (''b'', - 0.5), (''c'', - 0.05)]) \<and>
   snd (''b'', - 0.5 :: real) \<le> snd (''c'', - 0.05 :: real) \<and>
   (''c'', - 0.05) \<in> set [(''a'', - 0.1), (''b'', - 0.5), (''c'', - 0.05 :: real)] \<and>
   (''c'', - 0.05) \<notin> set (bottom_stories 2 [(''a'', - 0.1), (''b'', - 0.5), (''c'', - 0.05)]) \<and>
   (''c'', - 0.05) \<in># mset [(''a'', - 0.1), (''b'', - 0.5), (''c'', - 0.05 :: real)] -
       mset (bottom_stories 2 [(''a'', - 0.1), (''b'', - 0.5), (''c'', - 0.05)]) \<and>
   (''b'', - 0.5) \<in> set (bottom_stories 2 [(''a'', - 0.1), (''b'', - 0.5), (''c'', - 0.05)])"
proof -
  let ?avgs = "[(''a'', - 0.1), (''b'', - 0.5), (''c'', - 0.05 :: real)]"
  have d: "distinct (map fst ?avgs)"
    by simp
  have a: "(''b'', - 0.5) \<in> set ?avgs" "(''c'', - 0.05) \<in> set ?avgs"
    by simp_all
  have b: "(''b'', - 0.5) \<notin> set (top_stories 2 ?avgs)"
    "(''c'', - 0.05) \<in> set (top_stories 2 ?avgs)"
    "(''b'', - 0.5) \<in># mset ?avgs - mset (top_stories 2 ?avgs)"
    by (simp_all add: top_stories_def)
  have c: "(''c'', - 0.05) \<notin> set (bottom_stories 2 ?avgs)"
    "(''b'', - 0.5) \<in> set (bottom_stories 2 ?avgs)"
    "(''c'', - 0.05) \<in># mset ?avgs - mset (bottom_stories 2 ?avgs)"
    by (simp_all add: bottom_stories_def)
  note r = rank_top_bottom [of 2 ?avgs]
  from r d have dk: "distinct (map fst (top_stories 2 ?avgs))"
    "distinct (map fst (bottom_stories 2 ?avgs))"
    by blast+
  from r a(1) b(1,2) have top: "snd (''b'', - 0.5 :: real) \<le> snd (''c'', - 0.05 :: real)"
    by blast
  from r b(3,2) have top': "snd (''b'', - 0.5 :: real) \<le> snd (''c'', - 0.05 :: real)"
    by blast
  from r a(2) c(1,2) have bottom: "snd (''b'', - 0.5 :: real) \<le> snd (''c'', - 0.05 :: real)"
    by blast
  from r c(3,2) have bottom': "snd (''b'', - 0.5 :: real) \<le> snd (''c'', - 0.05 :: real)"
    by blast
  from top top' bottom bottom' dk d a b c show ?thesis by blast
qed

section \<open>What the loops compute\<close>

subsection \<open>Distinct indices have distinct decimal strings\<close>

lemma str_nonempty: "str n \<noteq> []" "[] \<noteq> str n"
  by (subst str.simps, simp)+

lemma digit_inj: "m < 10 \<Longrightarrow> n < 10 \<Longrightarrow> ''0123456789'' ! m = ''0123456789'' ! n \<Longrightarrow> m = n"
proof -
  assume "m < 10" "n < 10" "''0123456789'' ! m = ''0123456789'' ! n"
  moreover have "distinct ''0123456789''" by simp
  moreover have "length ''0123456789'' = 10" by simp
  ultimately show "m = n" by (metis nth_eq_iff_index_eq)
qed

lemma str_inj: "str m = str n \<Longrightarrow> m = n"
proof (induction m arbitrary: n rule: str.induct)
  case (1 m)
  show ?case
  proof (cases "m < 10")
    case small_m: True
    show ?thesis
    proof (cases "n < 10")
      case True
      with small_m "1.prems" show ?thesis
        by (simp add: str.simps [of m] str.simps [of n] digit_inj)
    next
      case False
      with small_m "1.prems" show ?thesis
        by (simp add: str.simps [of m] str.simps [of n] str_nonempty)
    qed
  next
    case big_m: False
    show ?thesis
    proof (cases "n < 10")
      case True
      with big_m "1.prems" show ?thesis
        by (simp add: str.simps [of m] str.simps [of n] str_nonempty)
    next
      case False
      with big_m "1.prems" have eq: "str (m div 10) = str (n div 10)"
        and d: "''0123456789'' ! (m mod 10) = ''0123456789'' ! (n mod 10)"
        by (simp_all add: str.simps [of m] str.simps [of n])
      from "1.IH" [OF big_m eq] have "m div 10 = n div 10" .
      moreover from d have "m mod 10 = n mod 10"
        by (intro digit_inj) simp_all
      ultimately show ?thesis
        by (metis div_mult_mod_eq)
    qed
  qed
qed

subsection \<open>Association lists: appending a fresh key\<close>

lemma update_fresh: "k \<notin> fst ` set d \<Longrightarrow> AList.update k v d = d @ [(k, v)]"
  by (induction d) auto

lemma map_entry_last:
  "k \<notin> fst ` set d \<Longrightarrow> AList.map_entry k f (d @ [(k, v)]) = d @ [(k, f v)]"
  by (induction d) auto

lemma map_default_fresh:
  "k \<notin> fst ` set d \<Longrightarrow> AList.map_default k v f d = d @ [(k, v)]"
  by (induction d) auto

lemma map_default_last:
  "k \<notin> fst ` set d \<Longrightarrow> AList.map_default k v f (d @ [(k, w)]) = d @ [(k, f w)]"
  by (induction d) auto

lemma map_of_last:
  "k \<notin> fst ` set d \<Longrightarrow> map_of (d @ [(k, v)]) k = Some v"
  by (induction d) auto

lemma store_score_fresh:
  "story_id \<notin> fst ` set d \<Longrightarrow> store_score story_id q v d = d @ [(story_id, [(q, v)])]"
  by (simp add: store_score_def update_fresh map_entry_last map_of_eq_None_iff)

lemma store_score_last:
  "story_id \<notin> fst ` set d \<Longrightarrow> q \<notin> fst ` set cur \<Longrightarrow>
   store_score story_id q v (d @ [(story_id, cur)]) = d @ [(story_id, cur @ [(q, v)])]"
  by (simp add: store_score_def map_of_last map_entry_last update_fresh)

lemma fold_store_score_last:
  "story_id \<notin> fst ` set d \<Longrightarrow> distinct (map fst (cur @ es)) \<Longrightarrow>
   fold (\<lambda>e. store_score story_id (fst e) (snd e)) es (d @ [(story_id, cur)]) =
   d @ [(story_id, cur @ es)]"
proof (induction es arbitrary: cur)
  case Nil
  then show ?case by simp
next
  case (Cons e es)
  from Cons.prems have "fst e \<notin> fst ` set cur" and "distinct (map fst ((cur @ [e]) @ es))"
    by auto
  with Cons.prems(1) Cons.IH [of "cur @ [e]"] show ?case
    by (simp add: store_score_last)
qed

lemma fold_store_score_fresh:
  assumes "story_id \<notin> fst ` set d" "distinct (map fst es)"
  shows "fold (\<lambda>e. store_score story_id (fst e) (snd e)) es d =
         (if es = [] then d else d @ [(story_id, es)])"
proof (cases es)
  case Nil
  then show ?thesis by simp
next
  case (Cons e es')
  with assms have "distinct (map fst ([e] @ es'))" by simp
  from fold_store_score_last [OF assms(1) this] Cons assms(1) show ?thesis
    by (simp add: store_score_fresh)
qed

lemma append_score_fresh: "k \<notin> fst ` set d \<Longrightarrow> append_score k v d = d @ [(k, [v])]"
  by (simp add: append_score_def map_default_fresh)

lemma append_score_last:
  "k \<notin> fst ` set d \<Longrightarrow> append_score k v (d @ [(k, cur)]) = d @ [(k, cur @ [v])]"
  by (simp add: append_score_def map_default_last)

lemma fold_append_score_last:
  "k \<notin> fst ` set d \<Longrightarrow> fold (append_score k) vs (d @ [(k, cur)]) = d @ [(k, cur @ vs)]"
  by (induction vs arbitrary: cur) (simp_all add: append_score_last)

lemma fold_append_score_fresh:
  "k \<notin> fst ` set d \<Longrightarrow> fold (append_score k) vs d = (if vs = [] then d else d @ [(k, vs)])"
  by (cases vs) (simp_all add: append_score_fresh fold_append_score_last)

subsection \<open>The loop over the questions of one story\<close>

lemma calculate_log_score_value: "calculate_log_score p a = Inr (score_value p a)"
  by (simp add: calculate_log_score_Inr score_value_def)

lemma process_questions_fold:
  "process_questions a b story_id st iqs =
   Inr (st\<lparr>acc_all_scores :=
            \<lparr>flash = fold (\<lambda>e. store_score story_id (fst e) (snd e)) (scored_entries a iqs)
                      (flash (acc_all_scores st)),
             flash_lite = fold (\<lambda>e. store_score story_id (fst e) (snd e)) (scored_entries b iqs)
                      (flash_lite (acc_all_scores st))\<rparr>,
          story_scores := fold (append_score story_id) (map snd (scored_entries a iqs))
                      (story_scores st)\<rparr>)"
proof (induction iqs arbitrary: st)
  case Nil
  show ?case by simp
next
  case (Cons iq iqs)
  show ?case
    by (simp add: Cons.IH process_question_def process_flash_def process_flash_lite_def
        calculate_log_score_value Let_def split: option.split)
qed

lemma scored_entries_keys:
  "map fst (scored_entries fc iqs) =
   map (\<lambda>iq. str (fst iq)) (filter (\<lambda>iq. fc (str (fst iq)) \<noteq> None) iqs)"
  by (induction iqs) (auto split: option.split)

lemma distinct_scored_entries:
  assumes "distinct (map fst iqs)"
  shows "distinct (map fst (scored_entries fc iqs))"
proof -
  have "inj_on str A" for A
    by (auto simp: inj_on_def dest: str_inj)
  then have "distinct (map str (map fst iqs))"
    using assms by (subst distinct_map) blast
  then have "distinct (map (\<lambda>iq. str (fst iq)) iqs)"
    by (simp add: comp_def)
  then have "distinct (map (\<lambda>iq. str (fst iq)) (filter (\<lambda>iq. fc (str (fst iq)) \<noteq> None) iqs))"
    by (rule distinct_map_filter)
  then show ?thesis by (simp add: scored_entries_keys)
qed

lemma distinct_story_questions: "distinct (map fst (story_questions item))"
  by (simp add: story_questions_def)

lemma rows_Nil [simp]: "rows f [] = []"
  by (simp add: rows_def)

lemma rows_Cons:
  "rows f (item # rest) = (if f item = [] then [] else [(fst item, f item)]) @ rows f rest"
  by (simp add: rows_def)

lemma live_Nil [simp]: "live [] = []"
  by (simp add: live_def)

lemma live_Cons:
  "live (item # rest) = (if error (snd item) = Some True then [] else [item]) @ live rest"
  by (simp add: live_def)

lemma add_stories_Nil [simp]: "add_stories ff fl st [] = st"
  by (simp add: add_stories_def)

lemma flash_entries_error [simp]:
  "error (snd item) = Some True \<Longrightarrow> flash_entries ff fl item = []"
  "error (snd item) = Some True \<Longrightarrow> flash_lite_entries ff fl item = []"
  by (simp_all add: flash_entries_def flash_lite_entries_def joined_def)

lemma process_story_add:
  assumes "fst item \<notin> state_keys st"
  shows "process_story ff fl st item = Inr (add_stories ff fl st [item])"
proof (cases "error (snd item) = Some True")
  case True
  then show ?thesis
    by (simp add: process_story_def add_stories_def rows_Cons live_Cons)
next
  case live: False
  from assms have k: "fst item \<notin> fst ` set (flash (acc_all_scores st))"
    "fst item \<notin> fst ` set (flash_lite (acc_all_scores st))"
    "fst item \<notin> fst ` set (story_scores st)"
    "fst item \<notin> fst ` set (acc_story_titles st)"
    "fst item \<notin> fst ` set (story_tags st)"
    by (auto simp: state_keys_def)
  show ?thesis
  proof (cases "joined ff fl item")
    case None
    with live k show ?thesis
      by (auto simp: process_story_def add_stories_def rows_Cons live_Cons Let_def
          flash_entries_def flash_lite_entries_def joined_def update_fresh
          story_title_def story_tag_list_def
          split: option.splits)
  next
    case (Some ab)
    have d1: "distinct (map fst (scored_entries (fst ab) (story_questions item)))"
      and d2: "distinct (map fst (scored_entries (snd ab) (story_questions item)))"
      by (simp_all add: distinct_scored_entries distinct_story_questions)
    from Some live have ff: "ff (fst item) = Some (fst ab)" and fl: "fl (fst item) = Some (snd ab)"
      by (auto simp: joined_def split: option.splits if_splits)
    from Some have fe: "flash_entries ff fl item = scored_entries (fst ab) (story_questions item)"
      and fle: "flash_lite_entries ff fl item = scored_entries (snd ab) (story_questions item)"
      by (simp_all add: flash_entries_def flash_lite_entries_def)
    show ?thesis
      using live k
      by (simp add: process_story_def Let_def ff fl process_questions_fold
          fold_store_score_fresh [OF _ d1] fold_store_score_fresh [OF _ d2]
          fold_append_score_fresh update_fresh
          add_stories_def rows_Cons live_Cons fe fle
          story_questions_def [symmetric] story_title_def story_tag_list_def)
  qed
qed

subsection \<open>The loop over the stories\<close>

lemma rows_keys: "fst ` set (rows f results) \<subseteq> fst ` set results"
  by (force simp: rows_def)

lemma live_keys: "fst ` set (live results) \<subseteq> fst ` set results"
  by (auto simp: live_def)

lemma state_keys_add_stories:
  "state_keys (add_stories ff fl st results) \<subseteq> state_keys st \<union> fst ` set results"
  using rows_keys [of "flash_entries ff fl" results]
    rows_keys [of "flash_lite_entries ff fl" results]
    rows_keys [of "\<lambda>item. map snd (flash_entries ff fl item)" results]
    live_keys [of results]
  by (auto simp: state_keys_def add_stories_def image_Un image_image)

lemma rows_append: "rows f (xs @ ys) = rows f xs @ rows f ys"
  by (simp add: rows_def)

lemma live_append: "live (xs @ ys) = live xs @ live ys"
  by (simp add: live_def)

lemma add_stories_append:
  "add_stories ff fl (add_stories ff fl st xs) ys = add_stories ff fl st (xs @ ys)"
  by (simp add: add_stories_def rows_append live_append)

lemma disjoint_step: "A \<subseteq> B \<union> {x} \<Longrightarrow> x \<notin> C \<Longrightarrow> B \<inter> C = {} \<Longrightarrow> A \<inter> C = {}"
  by blast

lemma process_stories_add:
  assumes "distinct (map fst results)" "state_keys st \<inter> fst ` set results = {}"
  shows "process_stories ff fl st results = Inr (add_stories ff fl st results)"
  using assms
proof (induction results arbitrary: st)
  case Nil
  show ?case by simp
next
  case (Cons item rest)
  from Cons.prems(2) have fresh: "fst item \<notin> state_keys st"
    by simp
  have sub: "state_keys (add_stories ff fl st [item]) \<subseteq> state_keys st \<union> {fst item}"
    using state_keys_add_stories [of ff fl st "[item]"] by simp
  have a: "fst item \<notin> fst ` set rest" and d: "distinct (map fst rest)"
    using Cons.prems(1) by simp_all
  have b: "state_keys st \<inter> fst ` set rest = {}"
    using Cons.prems(2) by simp
  from sub a b have "state_keys (add_stories ff fl st [item]) \<inter> fst ` set rest = {}"
    by (rule disjoint_step)
  from Cons.IH [OF d this]
  have "process_stories ff fl (add_stories ff fl st [item]) rest =
        Inr (add_stories ff fl st (item # rest))"
    by (simp add: add_stories_append)
  then show ?case
    by (simp add: process_story_add [OF fresh])
qed

lemma state_keys_init [simp]: "state_keys init_state = {}"
  by (simp add: state_keys_def init_state_def)

text \<open>The report in closed form.\<close>

lemma analyze_predictions_closed:
  assumes "distinct (map fst results)"
  shows "analyze_predictions results ff fl =
    Inr \<lparr>all_scores = \<lparr>flash = rows (flash_entries ff fl) results,
                       flash_lite = rows (flash_lite_entries ff fl) results\<rparr>,
         story_avg_scores =
           map (\<lambda>entry. (fst entry, np_mean (map Some (snd entry))))
             (rows (\<lambda>item. map snd (flash_entries ff fl item)) results),
         model_avg_scores =
           \<lparr>flash = np_mean (map Some (flatten_scores (rows (flash_entries ff fl) results))),
            flash_lite =
              np_mean (map Some (flatten_scores (rows (flash_lite_entries ff fl) results)))\<rparr>,
         tag_avg_scores =
           map (\<lambda>entry. (fst entry, np_mean (snd entry)))
             (collect_tag_scores (map (\<lambda>item. (fst item, story_tag_list item)) (live results))
                (map (\<lambda>entry. (fst entry, np_mean (map Some (snd entry))))
                   (rows (\<lambda>item. map snd (flash_entries ff fl item)) results))),
         story_titles = map (\<lambda>item. (fst item, story_title item)) (live results)\<rparr>"
proof -
  have "process_stories ff fl init_state results = Inr (add_stories ff fl init_state results)"
    by (rule process_stories_add) (simp_all add: assms)
  then show ?thesis
    by (simp add: analyze_predictions_def add_stories_def init_state_def Let_def)
qed

subsection \<open>Lookups in the report\<close>

lemma map_of_map_filter:
  "distinct (map fst xs) \<Longrightarrow>
   map_of (map (\<lambda>item. (fst item, g item)) (filter c xs)) k =
   (case map_of xs k of None \<Rightarrow> None | Some v \<Rightarrow> if c (k, v) then Some (g (k, v)) else None)"
proof (induction xs)
  case Nil
  show ?case by simp
next
  case (Cons x xs)
  obtain k' v' where x: "x = (k', v')" by (cases x)
  from Cons.prems x have notin: "k' \<notin> fst ` set xs" and d: "distinct (map fst xs)"
    by simp_all
  from notin have none: "map_of xs k' = None"
    by (simp add: map_of_eq_None_iff)
  show ?case
    using Cons.IH [OF d] none by (auto simp: x)
qed

lemma map_of_rows:
  "distinct (map fst results) \<Longrightarrow>
   map_of (rows f results) k =
   (case map_of results k of
      None \<Rightarrow> None
    | Some v \<Rightarrow> if f (k, v) \<noteq> [] then Some (f (k, v)) else None)"
  unfolding rows_def by (rule map_of_map_filter)

lemma map_of_live:
  "distinct (map fst results) \<Longrightarrow>
   map_of (map (\<lambda>item. (fst item, g item)) (live results)) k =
   (case map_of results k of
      None \<Rightarrow> None
    | Some v \<Rightarrow> if error (snd (k, v)) \<noteq> Some True then Some (g (k, v)) else None)"
  unfolding live_def by (rule map_of_map_filter)

lemma keys_rows:
  "fst ` set (rows f results) = fst ` {item \<in> set results. f item \<noteq> []}"
  by (force simp: rows_def)

lemma distinct_rows: "distinct (map fst results) \<Longrightarrow> distinct (map fst (rows f results))"
  by (simp add: rows_def comp_def distinct_map_filter)

lemma filter_key_eq:
  assumes "distinct (map fst rs)" "(k, v) \<in> set rs"
  shows "filter (\<lambda>item. fst item \<noteq> k) rs = filter (\<lambda>item. item \<noteq> (k, v)) rs"
proof (rule filter_cong [OF refl])
  fix item assume "item \<in> set rs"
  with assms show "(fst item \<noteq> k) = (item \<noteq> (k, v))"
    by (cases item) (auto dest: eq_key_imp_eq_value)
qed

lemma rows_remove:
  assumes "distinct (map fst rs)" "(k, v) \<in> set rs" "f (k, v) = []"
  shows "rows f (filter (\<lambda>item. fst item \<noteq> k) rs) = rows f rs"
proof -
  have "filter (\<lambda>item. f item \<noteq> []) (filter (\<lambda>item. item \<noteq> (k, v)) rs) =
        filter (\<lambda>item. f item \<noteq> []) rs"
    unfolding filter_filter using assms(3) by (intro filter_cong) auto
  then show ?thesis
    by (simp add: rows_def filter_key_eq [OF assms(1,2)])
qed

lemma live_remove:
  assumes "distinct (map fst rs)" "(k, v) \<in> set rs" "error v = Some True"
  shows "live (filter (\<lambda>item. fst item \<noteq> k) rs) = live rs"
proof -
  have "filter (\<lambda>item. error (snd item) \<noteq> Some True) (filter (\<lambda>item. item \<noteq> (k, v)) rs) =
        filter (\<lambda>item. error (snd item) \<noteq> Some True) rs"
    unfolding filter_filter using assms(3) by (intro filter_cong) auto
  then show ?thesis
    by (simp add: live_def filter_key_eq [OF assms(1,2)])
qed

lemma not_key_rows:
  assumes "distinct (map fst rs)" "(k, v) \<in> set rs" "f (k, v) = []"
  shows "k \<notin> fst ` set (rows f rs)"
proof
  assume "k \<in> fst ` set (rows f rs)"
  then obtain item where "item \<in> set rs" "f item \<noteq> []" "fst item = k"
    by (auto simp: keys_rows)
  moreover with assms(1,2) have "item = (k, v)"
    by (cases item) (auto dest: eq_key_imp_eq_value)
  ultimately show False using assms(3) by simp
qed

lemma not_key_live:
  assumes "distinct (map fst rs)" "(k, v) \<in> set rs" "error v = Some True"
  shows "k \<notin> fst ` set (live rs)"
proof
  assume "k \<in> fst ` set (live rs)"
  then obtain item where "item \<in> set rs" "error (snd item) \<noteq> Some True" "fst item = k"
    by (auto simp: live_def)
  moreover with assms(1,2) have "item = (k, v)"
    by (cases item) (auto dest: eq_key_imp_eq_value)
  ultimately show False using assms(3) by simp
qed

lemma distinct_remove: "distinct (map fst rs) \<Longrightarrow> distinct (map fst (filter P rs))"
  by (rule distinct_map_filter)

lemma flash_entries_unjoined [simp]:
  "ff (fst item) = None \<or> fl (fst item) = None \<Longrightarrow> flash_entries ff fl item = []"
  "ff (fst item) = None \<or> fl (fst item) = None \<Longrightarrow> flash_lite_entries ff fl item = []"
  by (auto simp: flash_entries_def flash_lite_entries_def joined_def split: option.splits)

lemma map_of_filter_key:
  "k \<noteq> k0 \<Longrightarrow> map_of (filter (\<lambda>item. fst item \<noteq> k0) rs) k = map_of rs k"
  by (induction rs) auto

lemma collect_tag_scores_cong:
  assumes "\<And>k. k \<in> fst ` set avgs \<Longrightarrow> map_of t1 k = map_of t2 k"
  shows "collect_tag_scores t1 avgs = collect_tag_scores t2 avgs"
  unfolding collect_tag_scores_def
  by (rule fold_cong) (auto simp: assms)

lemma live_remove_keys:
  "distinct (map fst rs) \<Longrightarrow> k \<noteq> k0 \<Longrightarrow>
   map_of (map (\<lambda>item. (fst item, g item)) (live (filter (\<lambda>item. fst item \<noteq> k0) rs))) k =
   map_of (map (\<lambda>item. (fst item, g item)) (live rs)) k"
  by (simp add: map_of_live distinct_remove map_of_filter_key)

lemma map_of_map_snd:
  "map_of (map (\<lambda>entry. (fst entry, h (snd entry))) xs) k = map_option h (map_of xs k)"
  by (induction xs) auto

lemma those_map_Some [simp]: "those (map Some xs) = Some xs"
  by (induction xs) simp_all

lemma np_mean_Some:
  "np_mean (map Some xs) = (if xs = [] then None else Some (sum_list xs / real (length xs)))"
  by (simp add: np_mean_def)

lemma flash_entries_dom:
  assumes "dom fl' = dom fl"
  shows "flash_entries ff fl' item = flash_entries ff fl item"
proof -
  from assms have "fl' (fst item) = None \<longleftrightarrow> fl (fst item) = None"
    by (metis domIff)
  then show ?thesis
    by (auto simp: flash_entries_def joined_def split: option.splits)
qed

lemma story_avg_scores_finite:
  assumes "distinct (map fst results)" "analyze_predictions results ff fl = Inr report"
    "entry \<in> set (story_avg_scores report)"
  shows "snd entry \<noteq> None"
proof -
  from assms(2,3) obtain row
    where "row \<in> set (rows (\<lambda>item. map snd (flash_entries ff fl item)) results)"
      and "snd entry = np_mean (map Some (snd row))"
    by (auto simp: analyze_predictions_closed [OF assms(1)])
  moreover from this(1) have "snd row \<noteq> []"
    by (auto simp: rows_def)
  ultimately show ?thesis
    by (simp add: np_mean_Some)
qed

subsection \<open>Permuting the stories\<close>

lemma perm_distinct_keys:
  assumes "mset rs' = mset rs" "distinct (map fst rs)"
  shows "distinct (map fst rs')"
proof -
  from assms(1) have "mset (map fst rs') = mset (map fst rs)"
    by simp
  then have "distinct (map fst rs') \<longleftrightarrow> distinct (map fst rs)"
    by (rule mset_eq_imp_distinct_iff)
  with assms(2) show ?thesis
    by simp
qed

lemma perm_map_of:
  assumes "mset rs' = mset rs" "distinct (map fst rs)"
  shows "map_of rs' = map_of rs"
proof -
  from assms(1) have "set rs' = set rs"
    by (rule mset_eq_setD)
  with perm_distinct_keys [OF assms] assms(2) show ?thesis
    by (simp add: map_of_inject_set)
qed

lemma perm_map_of_rows:
  assumes "mset rs' = mset rs" "distinct (map fst rs)"
  shows "map_of (rows f rs') = map_of (rows f rs)"
  by (rule ext)
    (simp add: map_of_rows [OF assms(2)] map_of_rows [OF perm_distinct_keys [OF assms]]
      perm_map_of [OF assms])

lemma perm_map_of_live:
  assumes "mset rs' = mset rs" "distinct (map fst rs)"
  shows "map_of (map (\<lambda>item. (fst item, g item)) (live rs')) =
         map_of (map (\<lambda>item. (fst item, g item)) (live rs))"
  by (rule ext)
    (simp add: map_of_live [OF assms(2)] map_of_live [OF perm_distinct_keys [OF assms]]
      perm_map_of [OF assms])

text \<open>
  Each story touches only its own keys, and its scores are computed and averaged in the
  order of its questions. So the score tables, the story averages and the titles do not
  depend on the order in which \<open>results\<close> enumerates the stories. The model averages and
  the tag averages are means over the same values enumerated in another order; their
  equality would hold here only because the sum is over the reals, whereas a sum of floats
  depends on the order of the summands, so it is not stated.
\<close>

lemma score_tables_order_independent:
  assumes "distinct (map fst results)" "distinct (map fst results')"
    "set results' = set results"
  shows "\<exists>report report'.
    analyze_predictions results ff fl = Inr report \<and>
    analyze_predictions results' ff fl = Inr report' \<and>
    map_of (flash (all_scores report')) = map_of (flash (all_scores report)) \<and>
    map_of (flash_lite (all_scores report')) = map_of (flash_lite (all_scores report)) \<and>
    map_of (story_avg_scores report') = map_of (story_avg_scores report) \<and>
    map_of (story_titles report') = map_of (story_titles report)"
proof -
  note d = assms(1) and d' = assms(2)
  let ?g = "\<lambda>item. map snd (flash_entries ff fl item)"
  let ?avg = "\<lambda>entry :: string \<times> real list. (fst entry, np_mean (map Some (snd entry)))"
  have "distinct results" "distinct results'"
    using d d' by (auto dest: distinct_map [THEN iffD1])
  with assms(3) have p: "mset results' = mset results"
    by (simp add: set_eq_iff_mset_eq_distinct)
  have flash: "map_of (rows (flash_entries ff fl) results') =
               map_of (rows (flash_entries ff fl) results)"
    and lite: "map_of (rows (flash_lite_entries ff fl) results') =
               map_of (rows (flash_lite_entries ff fl) results)"
    by (rule perm_map_of_rows [OF p d])+
  have "map_of (rows ?g results') = map_of (rows ?g results)"
    by (rule perm_map_of_rows [OF p d])
  then have avgs: "map_of (map ?avg (rows ?g results')) = map_of (map ?avg (rows ?g results))"
    by (intro ext) (simp add: map_of_map_snd [of "\<lambda>s. np_mean (map Some s)"])
  have titles: "map_of (map (\<lambda>item. (fst item, story_title item)) (live results')) =
                map_of (map (\<lambda>item. (fst item, story_title item)) (live results))"
    by (rule perm_map_of_live [OF p d])
  show ?thesis
    unfolding analyze_predictions_closed [OF d] analyze_predictions_closed [OF d']
    using flash lite avgs titles by simp
qed

subsection \<open>Running the scenario\<close>

lemmas run_defs =
  analyze_predictions_def init_state_def process_story_def process_question_def
  process_flash_def process_flash_lite_def calculate_log_score_def math_log_def
  store_score_def append_score_def enumerate_eq_zip upt_rec str.simps np_mean_def
  flatten_scores_def collect_tag_scores_def Let_def

lemma scenario_report:
  "analyze_predictions scenario_results scenario_m1 scenario_m2 =
   Inr \<lparr>all_scores =
          \<lparr>flash = [(''s1'', [(''0'', ln 0.8), (''1'', ln 0.7)])],
           flash_lite = [(''s1'', [(''0'', ln 0.6), (''1'', ln 0.6)])]\<rparr>,
        story_avg_scores = [(''s1'', Some ((ln 0.8 + ln 0.7) / 2))],
        model_avg_scores =
          \<lparr>flash = Some ((ln 0.8 + ln 0.7) / 2), flash_lite = Some ((ln 0.6 + ln 0.6) / 2)\<rparr>,
        tag_avg_scores = [(''mystery'', Some ((ln 0.8 + ln 0.7) / 2))],
        story_titles = [(''s1'', ''A'')]\<rparr>"
  by (simp add: scenario_results_def scenario_story_def scenario_m1_def scenario_m2_def run_defs)

lemma scenario_unjoined_report:
  "analyze_predictions scenario_results scenario_m1 Map.empty =
   Inr \<lparr>all_scores = \<lparr>flash = [], flash_lite = []\<rparr>,
        story_avg_scores = [],
        model_avg_scores = \<lparr>flash = None, flash_lite = None\<rparr>,
        tag_avg_scores = [],
        story_titles = [(''s1'', ''A'')]\<rparr>"
  by (simp add: scenario_results_def scenario_story_def scenario_m1_def run_defs)

lemma means_differ:
  fixes a b c :: real
  shows "c < a \<Longrightarrow> c < b \<Longrightarrow> (a + b) / 2 \<noteq> (a + b + c + c) / 4"
  by (simp add: field_simps)

lemma scenario_means_differ:
  "(ln 0.8 + ln 0.7) / 2 \<noteq> (ln 0.8 + ln 0.7 + ln 0.6 + ln (0.6 :: real)) / 4"
  by (rule means_differ) simp_all

subsection \<open>What the score tables hold\<close>

lemma map_of_scored_entries:
  "map_of (scored_entries fc (List.enumerate n qs)) (str i) =
   (if n \<le> i \<and> i < n + length qs
    then map_option (\<lambda>p. score_value p (answer (qs ! (i - n)))) (fc (str i))
    else None)"
proof (induction qs arbitrary: n)
  case Nil
  show ?case by auto
next
  case (Cons q qs)
  show ?case
  proof (cases "i = n")
    case True
    with Cons.IH [of "Suc n"] show ?thesis
      by (simp split: option.split)
  next
    case False
    then have "str i \<noteq> str n"
      by (auto dest: str_inj)
    moreover from False have "n \<le> i \<Longrightarrow> (q # qs) ! (i - n) = qs ! (i - Suc n)"
      by (simp add: nth_Cons')
    moreover from False have "(n \<le> i \<and> i < n + length (q # qs)) = (Suc n \<le> i \<and> i < Suc n + length qs)"
      by auto
    ultimately show ?thesis
      by (simp add: Cons.IH split: option.split)
  qed
qed

lemma stored_scores:
  assumes d: "distinct (map fst results)" and m: "(story_id, story) \<in> set results"
    and e: "error story \<noteq> Some True"
    and ff: "ff story_id = Some a" and fl: "fl story_id = Some b"
    and q: "questions story = Some qs" and i: "i < length qs"
  shows "a (str i) = Some p \<Longrightarrow>
         \<exists>row. map_of (rows (flash_entries ff fl) results) story_id = Some row \<and>
           map_of row (str i) = Some (score_value p (answer (qs ! i)))"
    and "b (str i) = Some p \<Longrightarrow>
         \<exists>row. map_of (rows (flash_lite_entries ff fl) results) story_id = Some row \<and>
           map_of row (str i) = Some (score_value p (answer (qs ! i)))"
proof -
  from d m have look: "map_of results story_id = Some story"
    by simp
  from e ff fl have j: "joined ff fl (story_id, story) = Some (a, b)"
    by (simp add: joined_def)
  from q have sq: "story_questions (story_id, story) = List.enumerate 0 qs"
    by (simp add: story_questions_def)
  {
    assume p: "a (str i) = Some p"
    let ?row = "flash_entries ff fl (story_id, story)"
    from p i have r: "map_of ?row (str i) = Some (score_value p (answer (qs ! i)))"
      by (simp add: flash_entries_def j sq map_of_scored_entries)
    then have "?row \<noteq> []"
      by auto
    with look have "map_of (rows (flash_entries ff fl) results) story_id = Some ?row"
      by (simp add: map_of_rows [OF d])
    with r show "\<exists>row. map_of (rows (flash_entries ff fl) results) story_id = Some row \<and>
           map_of row (str i) = Some (score_value p (answer (qs ! i)))"
      by blast
  }
  {
    assume p: "b (str i) = Some p"
    let ?row = "flash_lite_entries ff fl (story_id, story)"
    from p i have r: "map_of ?row (str i) = Some (score_value p (answer (qs ! i)))"
      by (simp add: flash_lite_entries_def j sq map_of_scored_entries)
    then have "?row \<noteq> []"
      by auto
    with look have "map_of (rows (flash_lite_entries ff fl) results) story_id = Some ?row"
      by (simp add: map_of_rows [OF d])
    with r show "\<exists>row. map_of (rows (flash_lite_entries ff fl) results) story_id = Some row \<and>
           map_of row (str i) = Some (score_value p (answer (qs ! i)))"
      by blast
  }
qed

lemma story_avg_lookup:
  assumes d: "distinct (map fst results)"
    and a: "map_of (map (\<lambda>entry. (fst entry, np_mean (map Some (snd entry))))
              (rows (\<lambda>item. map snd (flash_entries ff fl item)) results)) story_id = Some avg"
  shows "\<exists>scores. map_of (rows (flash_entries ff fl) results) story_id = Some scores \<and>
           scores \<noteq> [] \<and> avg = np_mean (map Some (map snd scores))"
proof -
  let ?g = "\<lambda>item. map snd (flash_entries ff fl item)"
  from a have "map_option (\<lambda>s. np_mean (map Some s)) (map_of (rows ?g results) story_id) = Some avg"
    by (simp add: map_of_map_snd [of "\<lambda>s. np_mean (map Some s)"])
  then obtain s where s: "map_of (rows ?g results) story_id = Some s"
    and a': "avg = np_mean (map Some s)"
    by auto
  from s obtain v where v: "map_of results story_id = Some v"
    and ne': "?g (story_id, v) \<noteq> []" and s': "s = ?g (story_id, v)"
    by (auto simp: map_of_rows [OF d] split: option.splits if_splits)
  from ne' have ne: "flash_entries ff fl (story_id, v) \<noteq> []"
    by simp
  with v have "map_of (rows (flash_entries ff fl) results) story_id =
      Some (flash_entries ff fl (story_id, v))"
    by (simp add: map_of_rows [OF d])
  with ne a' s' show ?thesis
    by blast
qed

section \<open>Properties of \<^verbatim>\<open>analyze_predictions\<close>\<close>

text \<open>
  Claim C7. A story whose record carries a truthy error flag is skipped entirely: the
  report is the one obtained from \<open>results\<close> without that story (so none of its questions
  is scored and it contributes to no tag), and its id is a key of neither score table, nor
  of \<open>story_avg_scores\<close>, nor of \<open>story_titles\<close>.
\<close>

theorem error_story_skipped:
  assumes "distinct (map fst results)" "(story_id, story) \<in> set results"
    "error story = Some True"
  shows "\<exists>report.
    analyze_predictions results ff fl = Inr report \<and>
    analyze_predictions (filter (\<lambda>item. fst item \<noteq> story_id) results) ff fl = Inr report \<and>
    story_id \<notin> fst ` set (flash (all_scores report)) \<and>
    story_id \<notin> fst ` set (flash_lite (all_scores report)) \<and>
    story_id \<notin> fst ` set (story_avg_scores report) \<and>
    story_id \<notin> fst ` set (story_titles report)"
proof -
  let ?rest = "filter (\<lambda>item. fst item \<noteq> story_id) results"
  from assms(3) have e: "flash_entries ff fl (story_id, story) = []"
    "flash_lite_entries ff fl (story_id, story) = []"
    "map snd (flash_entries ff fl (story_id, story)) = []"
    by simp_all
  note d = assms(1) and m = assms(2)
  have r: "rows (flash_entries ff fl) ?rest = rows (flash_entries ff fl) results"
    "rows (flash_lite_entries ff fl) ?rest = rows (flash_lite_entries ff fl) results"
    "rows (\<lambda>item. map snd (flash_entries ff fl item)) ?rest =
     rows (\<lambda>item. map snd (flash_entries ff fl item)) results"
    "live ?rest = live results"
    using e assms(3) by (simp_all add: rows_remove [OF d m] live_remove [OF d m])
  have n: "story_id \<notin> fst ` set (rows (flash_entries ff fl) results)"
    "story_id \<notin> fst ` set (rows (flash_lite_entries ff fl) results)"
    "story_id \<notin> fst ` set (rows (\<lambda>item. map snd (flash_entries ff fl item)) results)"
    "story_id \<notin> fst ` set (live results)"
    using e assms(3) by (simp_all add: not_key_rows [OF d m] not_key_live [OF d m])
  have d': "distinct (map fst ?rest)"
    using d by (rule distinct_remove)
  show ?thesis
    using n by (simp add: analyze_predictions_closed [OF d] analyze_predictions_closed [OF d'] r
        image_image)
qed

theorem error_story_skipped_witness:
  "distinct (map fst scenario_with_failure) \<and>
   (''s2'', failed_story) \<in> set scenario_with_failure \<and>
   error failed_story = Some True \<and>
   (\<exists>report.
      analyze_predictions scenario_with_failure
        (scenario_m1(''s2'' \<mapsto> [''0'' \<mapsto> 0.9])) (scenario_m2(''s2'' \<mapsto> [''0'' \<mapsto> 0.5])) = Inr report \<and>
      analyze_predictions (filter (\<lambda>item. fst item \<noteq> ''s2'') scenario_with_failure)
        (scenario_m1(''s2'' \<mapsto> [''0'' \<mapsto> 0.9])) (scenario_m2(''s2'' \<mapsto> [''0'' \<mapsto> 0.5])) = Inr report \<and>
      ''s2'' \<notin> fst ` set (flash (all_scores report)) \<and>
      ''s2'' \<notin> fst ` set (flash_lite (all_scores report)) \<and>
      ''s2'' \<notin> fst ` set (story_avg_scores report) \<and>
      ''s2'' \<notin> fst ` set (story_titles report))"
proof -
  have a: "distinct (map fst scenario_with_failure)"
    and b: "(''s2'', failed_story) \<in> set scenario_with_failure"
    and c: "error failed_story = Some True"
    by (simp_all add: scenario_with_failure_def failed_story_def)
  from error_story_skipped [OF a b c] a b c show ?thesis
    by blast
qed

text \<open>
  Claim C3, as amended. A story without error flag that is missing from the flash or
  from the flash-lite forecasts is scored nowhere: both score tables, the story averages,
  the model averages and the tag averages are those of the run without the story, and
  its id is a key of neither score table nor of \<open>story_avg_scores\<close>. Its title, however, is
  stored before the forecasts are looked at, so \<open>story_titles\<close> does hold an entry for it.
\<close>

theorem unjoined_story_excluded:
  assumes "distinct (map fst results)" "(story_id, story) \<in> set results"
    "error story \<noteq> Some True" "ff story_id = None \<or> fl story_id = None"
  shows "\<exists>report report'.
    analyze_predictions results ff fl = Inr report \<and>
    analyze_predictions (filter (\<lambda>item. fst item \<noteq> story_id) results) ff fl = Inr report' \<and>
    all_scores report = all_scores report' \<and>
    story_avg_scores report = story_avg_scores report' \<and>
    model_avg_scores report = model_avg_scores report' \<and>
    tag_avg_scores report = tag_avg_scores report' \<and>
    story_id \<notin> fst ` set (flash (all_scores report)) \<and>
    story_id \<notin> fst ` set (flash_lite (all_scores report)) \<and>
    story_id \<notin> fst ` set (story_avg_scores report) \<and>
    map_of (story_titles report) story_id =
      Some (case Title story of Some t \<Rightarrow> t | None \<Rightarrow> ''Story '' @ story_id)"
proof -
  let ?rest = "filter (\<lambda>item. fst item \<noteq> story_id) results"
  let ?avgs = "map (\<lambda>entry. (fst entry, np_mean (map Some (snd entry))))
                 (rows (\<lambda>item. map snd (flash_entries ff fl item)) results)"
  note d = assms(1) and m = assms(2)
  from assms(4) have e: "flash_entries ff fl (story_id, story) = []"
    "flash_lite_entries ff fl (story_id, story) = []"
    "map snd (flash_entries ff fl (story_id, story)) = []"
    by simp_all
  have r: "rows (flash_entries ff fl) ?rest = rows (flash_entries ff fl) results"
    "rows (flash_lite_entries ff fl) ?rest = rows (flash_lite_entries ff fl) results"
    "rows (\<lambda>item. map snd (flash_entries ff fl item)) ?rest =
     rows (\<lambda>item. map snd (flash_entries ff fl item)) results"
    using e by (simp_all add: rows_remove [OF d m])
  have n: "story_id \<notin> fst ` set (rows (flash_entries ff fl) results)"
    "story_id \<notin> fst ` set (rows (flash_lite_entries ff fl) results)"
    "story_id \<notin> fst ` set (rows (\<lambda>item. map snd (flash_entries ff fl item)) results)"
    using e by (simp_all add: not_key_rows [OF d m])
  have d': "distinct (map fst ?rest)"
    using d by (rule distinct_remove)
  have t: "collect_tag_scores (map (\<lambda>item. (fst item, story_tag_list item)) (live ?rest)) ?avgs =
           collect_tag_scores (map (\<lambda>item. (fst item, story_tag_list item)) (live results)) ?avgs"
  proof (rule collect_tag_scores_cong)
    fix k assume "k \<in> fst ` set ?avgs"
    with n(3) have "k \<noteq> story_id"
      by (auto simp: image_image)
    then show "map_of (map (\<lambda>item. (fst item, story_tag_list item)) (live ?rest)) k =
               map_of (map (\<lambda>item. (fst item, story_tag_list item)) (live results)) k"
      by (rule live_remove_keys [OF d])
  qed
  from d m have "map_of results story_id = Some story"
    by simp
  with assms(3) have title: "map_of (map (\<lambda>item. (fst item, story_title item)) (live results)) story_id =
      Some (case Title story of Some t \<Rightarrow> t | None \<Rightarrow> ''Story '' @ story_id)"
    by (simp add: map_of_live [OF d] story_title_def split: option.split)
  show ?thesis
    using n title
    by (simp add: analyze_predictions_closed [OF d] analyze_predictions_closed [OF d'] r t
        image_image)
qed

theorem unjoined_story_excluded_witness:
  "distinct (map fst scenario_results) \<and>
   (''s1'', scenario_story) \<in> set scenario_results \<and>
   error scenario_story \<noteq> Some True \<and>
   (scenario_m1 ''s1'' = None \<or> (Map.empty :: forecasts) ''s1'' = None) \<and>
   (\<exists>report report'.
      analyze_predictions scenario_results scenario_m1 Map.empty = Inr report \<and>
      analyze_predictions (filter (\<lambda>item. fst item \<noteq> ''s1'') scenario_results)
        scenario_m1 Map.empty = Inr report' \<and>
      all_scores report = all_scores report' \<and>
      story_avg_scores report = story_avg_scores report' \<and>
      model_avg_scores report = model_avg_scores report' \<and>
      tag_avg_scores report = tag_avg_scores report' \<and>
      ''s1'' \<notin> fst ` set (flash (all_scores report)) \<and>
      ''s1'' \<notin> fst ` set (flash_lite (all_scores report)) \<and>
      ''s1'' \<notin> fst ` set (story_avg_scores report) \<and>
      map_of (story_titles report) ''s1'' =
        Some (case Title scenario_story of Some t \<Rightarrow> t | None \<Rightarrow> ''Story '' @ ''s1''))"
proof -
  have a: "distinct (map fst scenario_results)"
    and b: "(''s1'', scenario_story) \<in> set scenario_results"
    and c: "error scenario_story \<noteq> Some True"
    and d: "scenario_m1 ''s1'' = None \<or> (Map.empty :: forecasts) ''s1'' = None"
    by (simp_all add: scenario_results_def scenario_story_def)
  from unjoined_story_excluded [of scenario_results "''s1''" scenario_story scenario_m1 Map.empty,
      OF a b c d] a b c d
  show ?thesis
    by blast
qed

text \<open>
  Claim C3, as stated, fails for \<open>story_titles\<close>: in the scenario with an empty flash-lite
  forecast file, story \<open>s1\<close> is scored nowhere and still has its title in the report.
\<close>

theorem unjoined_story_title_counterexample:
  "(''s1'', scenario_story) \<in> set scenario_results \<and>
   error scenario_story \<noteq> Some True \<and>
   scenario_m1 ''s1'' \<noteq> None \<and>
   (Map.empty :: forecasts) ''s1'' = None \<and>
   analyze_predictions scenario_results scenario_m1 Map.empty =
   Inr \<lparr>all_scores = \<lparr>flash = [], flash_lite = []\<rparr>,
        story_avg_scores = [],
        model_avg_scores = \<lparr>flash = None, flash_lite = None\<rparr>,
        tag_avg_scores = [],
        story_titles = [(''s1'', ''A'')]\<rparr>"
  by (simp add: scenario_unjoined_report)
    (simp add: scenario_results_def scenario_story_def scenario_m1_def)

text \<open>
  Claim C2, as amended. Only the flash model's scores are appended to the per-story
  list: every story average is the mean of the values of that story's row in
  \<open>all_scores["flash"]\<close>, and replacing the flash-lite forecasts by any others for the same
  stories leaves \<open>story_avg_scores\<close> unchanged. The flash-lite scores are stored in
  \<open>all_scores\<close> only: for every story that is scored and every question index a model
  forecast, that model's table holds the log score under (story id, index). In the
  scenario with \<open>m1\<close> as the flash forecasts, \<open>story_avg_scores["s1"]\<close> is
  \<open>mean([ln 0.8, ln 0.7])\<close> whatever the flash-lite file forecasts for \<open>s1\<close>, and with \<open>m2\<close> as
  the flash-lite forecasts the flash-lite table holds \<open>ln 0.6\<close> twice.
\<close>

theorem story_average_flash_only:
  "(\<forall>results ff fl. distinct (map fst results) \<longrightarrow>
      (\<exists>report.
         analyze_predictions results ff fl = Inr report \<and>
         (\<forall>story_id avg. map_of (story_avg_scores report) story_id = Some avg \<longrightarrow>
            (\<exists>scores. map_of (flash (all_scores report)) story_id = Some scores \<and>
               scores \<noteq> [] \<and> avg = np_mean (map Some (map snd scores)))) \<and>
         (\<forall>fl'. dom fl' = dom fl \<longrightarrow>
            (\<exists>report'. analyze_predictions results ff fl' = Inr report' \<and>
               story_avg_scores report' = story_avg_scores report)) \<and>
         (\<forall>story_id story a b qs i p s.
            (story_id, story) \<in> set results \<and> error story \<noteq> Some True \<and>
            ff story_id = Some a \<and> fl story_id = Some b \<and>
            questions story = Some qs \<and> i < length qs \<and>
            calculate_log_score p (answer (qs ! i)) = Inr s \<longrightarrow>
              (a (str i) = Some p \<longrightarrow>
                 (\<exists>row. map_of (flash (all_scores report)) story_id = Some row \<and>
                    map_of row (str i) = Some s)) \<and>
              (b (str i) = Some p \<longrightarrow>
                 (\<exists>row. map_of (flash_lite (all_scores report)) story_id = Some row \<and>
                    map_of row (str i) = Some s))))) \<and>
   (\<forall>fl. fl ''s1'' \<noteq> None \<longrightarrow>
      (\<exists>report.
         analyze_predictions scenario_results scenario_m1 fl = Inr report \<and>
         story_avg_scores report = [(''s1'', np_mean [Some (ln 0.8), Some (ln 0.7)])] \<and>
         flash (all_scores report) = [(''s1'', [(''0'', ln 0.8), (''1'', ln 0.7)])])) \<and>
   (\<exists>report.
      analyze_predictions scenario_results scenario_m1 scenario_m2 = Inr report \<and>
      story_avg_scores report = [(''s1'', np_mean [Some (ln 0.8), Some (ln 0.7)])] \<and>
      flash_lite (all_scores report) = [(''s1'', [(''0'', ln 0.6), (''1'', ln 0.6)])])"
proof (intro conjI allI impI)
  fix results :: "story_data dict" and ff fl :: forecasts
  assume d: "distinct (map fst results)"
  let ?report = "projr (analyze_predictions results ff fl)"
  have run: "analyze_predictions results ff fl = Inr ?report"
    by (simp add: analyze_predictions_closed [OF d])
  have avg: "\<forall>story_id avg. map_of (story_avg_scores ?report) story_id = Some avg \<longrightarrow>
      (\<exists>scores. map_of (flash (all_scores ?report)) story_id = Some scores \<and>
         scores \<noteq> [] \<and> avg = np_mean (map Some (map snd scores)))"
    using story_avg_lookup [OF d, of ff fl]
    by (simp add: analyze_predictions_closed [OF d])
  have same: "\<forall>fl'. dom fl' = dom fl \<longrightarrow>
      (\<exists>report'. analyze_predictions results ff fl' = Inr report' \<and>
         story_avg_scores report' = story_avg_scores ?report)"
  proof (intro allI impI)
    fix fl' :: forecasts
    assume h: "dom fl' = dom fl"
    show "\<exists>report'. analyze_predictions results ff fl' = Inr report' \<and>
         story_avg_scores report' = story_avg_scores ?report"
      by (simp add: analyze_predictions_closed [OF d] flash_entries_dom [OF h])
  qed
  have stored: "\<forall>story_id story a b qs i p s.
      (story_id, story) \<in> set results \<and> error story \<noteq> Some True \<and>
      ff story_id = Some a \<and> fl story_id = Some b \<and>
      questions story = Some qs \<and> i < length qs \<and>
      calculate_log_score p (answer (qs ! i)) = Inr s \<longrightarrow>
        (a (str i) = Some p \<longrightarrow>
           (\<exists>row. map_of (flash (all_scores ?report)) story_id = Some row \<and>
              map_of row (str i) = Some s)) \<and>
        (b (str i) = Some p \<longrightarrow>
           (\<exists>row. map_of (flash_lite (all_scores ?report)) story_id = Some row \<and>
              map_of row (str i) = Some s))"
  proof (intro allI impI, elim conjE)
    fix story_id story a b qs i p s
    assume h: "(story_id, story) \<in> set results" "error story \<noteq> Some True"
      "ff story_id = Some a" "fl story_id = Some b" "questions story = Some qs" "i < length qs"
      and s: "calculate_log_score p (answer (qs ! i)) = Inr s"
    from s have sv: "score_value p (answer (qs ! i)) = s"
      by (simp add: calculate_log_score_value)
    from stored_scores [where ff = ff and fl = fl and p = p, OF d h] sv
    show "(a (str i) = Some p \<longrightarrow>
           (\<exists>row. map_of (flash (all_scores ?report)) story_id = Some row \<and>
              map_of row (str i) = Some s)) \<and>
        (b (str i) = Some p \<longrightarrow>
           (\<exists>row. map_of (flash_lite (all_scores ?report)) story_id = Some row \<and>
              map_of row (str i) = Some s))"
      by (simp add: analyze_predictions_closed [OF d])
  qed
  show "\<exists>report.
         analyze_predictions results ff fl = Inr report \<and>
         (\<forall>story_id avg. map_of (story_avg_scores report) story_id = Some avg \<longrightarrow>
            (\<exists>scores. map_of (flash (all_scores report)) story_id = Some scores \<and>
               scores \<noteq> [] \<and> avg = np_mean (map Some (map snd scores)))) \<and>
         (\<forall>fl'. dom fl' = dom fl \<longrightarrow>
            (\<exists>report'. analyze_predictions results ff fl' = Inr report' \<and>
               story_avg_scores report' = story_avg_scores report)) \<and>
         (\<forall>story_id story a b qs i p s.
            (story_id, story) \<in> set results \<and> error story \<noteq> Some True \<and>
            ff story_id = Some a \<and> fl story_id = Some b \<and>
            questions story = Some qs \<and> i < length qs \<and>
            calculate_log_score p (answer (qs ! i)) = Inr s \<longrightarrow>
              (a (str i) = Some p \<longrightarrow>
                 (\<exists>row. map_of (flash (all_scores report)) story_id = Some row \<and>
                    map_of row (str i) = Some s)) \<and>
              (b (str i) = Some p \<longrightarrow>
                 (\<exists>row. map_of (flash_lite (all_scores report)) story_id = Some row \<and>
                    map_of row (str i) = Some s)))"
    by (rule exI [of _ ?report]) (intro conjI run avg same stored)
next
  fix fl :: forecasts
  assume "fl ''s1'' \<noteq> None"
  then obtain b where b: "fl ''s1'' = Some b"
    by auto
  have d: "distinct (map fst scenario_results)"
    by (simp add: scenario_results_def)
  have "flash_entries scenario_m1 fl (''s1'', scenario_story) =
        [(''0'', ln 0.8), (''1'', ln 0.7)]"
    by (simp add: flash_entries_def joined_def b scenario_m1_def scenario_story_def
        story_questions_def enumerate_eq_zip upt_rec str.simps score_value_def)
  then show "\<exists>report.
      analyze_predictions scenario_results scenario_m1 fl = Inr report \<and>
      story_avg_scores report = [(''s1'', np_mean [Some (ln 0.8), Some (ln 0.7)])] \<and>
      flash (all_scores report) = [(''s1'', [(''0'', ln 0.8), (''1'', ln 0.7)])]"
    unfolding analyze_predictions_closed [OF d]
    by (simp add: scenario_results_def rows_def)
next
  show "\<exists>report.
      analyze_predictions scenario_results scenario_m1 scenario_m2 = Inr report \<and>
      story_avg_scores report = [(''s1'', np_mean [Some (ln 0.8), Some (ln 0.7)])] \<and>
      flash_lite (all_scores report) = [(''s1'', [(''0'', ln 0.6), (''1'', ln 0.6)])]"
    by (simp add: scenario_report np_mean_def)
qed

theorem story_average_flash_only_witness:
  "distinct (map fst scenario_results) \<and>
   dom (scenario_m2(''s1'' \<mapsto> [''0'' \<mapsto> 0.1])) = dom scenario_m2 \<and>
   (''s1'', scenario_story) \<in> set scenario_results \<and>
   error scenario_story \<noteq> Some True \<and>
   scenario_m1 ''s1'' = Some [''0'' \<mapsto> 0.8, ''1'' \<mapsto> 0.3] \<and>
   scenario_m2 ''s1'' = Some [''0'' \<mapsto> 0.6, ''1'' \<mapsto> 0.4] \<and>
   questions scenario_story = Some [\<lparr>answer = ''yes''\<rparr>, \<lparr>answer = ''no''\<rparr>] \<and>
   (1 :: nat) < length [\<lparr>answer = ''yes''\<rparr>, \<lparr>answer = ''no''\<rparr>] \<and>
   calculate_log_score 0.3 (answer ([\<lparr>answer = ''yes''\<rparr>, \<lparr>answer = ''no''\<rparr>] ! 1)) = Inr (ln 0.7) \<and>
   [''0'' \<mapsto> 0.8, ''1'' \<mapsto> 0.3 :: real] (str 1) = Some 0.3 \<and>
   calculate_log_score 0.4 (answer ([\<lparr>answer = ''yes''\<rparr>, \<lparr>answer = ''no''\<rparr>] ! 1)) = Inr (ln 0.6) \<and>
   [''0'' \<mapsto> 0.6, ''1'' \<mapsto> 0.4 :: real] (str 1) = Some 0.4 \<and>
   scenario_m2 ''s1'' \<noteq> None \<and>
   (\<exists>report.
      analyze_predictions scenario_results scenario_m1 scenario_m2 = Inr report \<and>
      (\<exists>avg scores.
         map_of (story_avg_scores report) ''s1'' = Some avg \<and>
         map_of (flash (all_scores report)) ''s1'' = Some scores \<and>
         scores \<noteq> [] \<and> avg = np_mean (map Some (map snd scores))) \<and>
      (\<exists>report'.
         analyze_predictions scenario_results scenario_m1
           (scenario_m2(''s1'' \<mapsto> [''0'' \<mapsto> 0.1])) = Inr report' \<and>
         story_avg_scores report' = story_avg_scores report) \<and>
      (\<exists>row. map_of (flash (all_scores report)) ''s1'' = Some row \<and>
         map_of row (str 1) = Some (ln 0.7)) \<and>
      (\<exists>row. map_of (flash_lite (all_scores report)) ''s1'' = Some row \<and>
         map_of row (str 1) = Some (ln 0.6))) \<and>
   (\<exists>report.
      analyze_predictions scenario_results scenario_m1 scenario_m2 = Inr report \<and>
      story_avg_scores report = [(''s1'', np_mean [Some (ln 0.8), Some (ln 0.7)])] \<and>
      flash (all_scores report) = [(''s1'', [(''0'', ln 0.8), (''1'', ln 0.7)])])"
proof -
  let ?qs = "[\<lparr>answer = ''yes''\<rparr>, \<lparr>answer = ''no''\<rparr>]"
  let ?a = "[''0'' \<mapsto> 0.8, ''1'' \<mapsto> 0.3 :: real]"
  let ?b = "[''0'' \<mapsto> 0.6, ''1'' \<mapsto> 0.4 :: real]"
  let ?fl' = "scenario_m2(''s1'' \<mapsto> [''0'' \<mapsto> 0.1])"
  have d: "distinct (map fst scenario_results)"
    by (simp add: scenario_results_def)
  have e: "dom ?fl' = dom scenario_m2"
    by (simp add: scenario_m2_def)
  have m: "(''s1'', scenario_story) \<in> set scenario_results"
    and ne: "error scenario_story \<noteq> Some True"
    and a: "scenario_m1 ''s1'' = Some ?a"
    and b: "scenario_m2 ''s1'' = Some ?b"
    and q: "questions scenario_story = Some ?qs"
    and i: "(1 :: nat) < length ?qs"
    by (simp_all add: scenario_results_def scenario_story_def scenario_m1_def scenario_m2_def)
  have sa: "calculate_log_score 0.3 (answer (?qs ! 1)) = Inr (ln 0.7)"
    and sb: "calculate_log_score 0.4 (answer (?qs ! 1)) = Inr (ln 0.6)"
    by (simp_all add: calculate_log_score_def math_log_def)
  have pa: "?a (str 1) = Some 0.3" and pb: "?b (str 1) = Some 0.4"
    by (simp_all add: str.simps)
  have c: "scenario_m2 ''s1'' \<noteq> None"
    by (simp add: b)
  note t = story_average_flash_only
  from t [THEN conjunct1, rule_format, OF d, of scenario_m1 scenario_m2]
  obtain report where run: "analyze_predictions scenario_results scenario_m1 scenario_m2 = Inr report"
    and avg: "\<And>story_id avg. map_of (story_avg_scores report) story_id = Some avg \<Longrightarrow>
       \<exists>scores. map_of (flash (all_scores report)) story_id = Some scores \<and>
          scores \<noteq> [] \<and> avg = np_mean (map Some (map snd scores))"
    and same: "\<And>fl'. dom fl' = dom scenario_m2 \<Longrightarrow>
       \<exists>report'. analyze_predictions scenario_results scenario_m1 fl' = Inr report' \<and>
          story_avg_scores report' = story_avg_scores report"
    and stored: "\<And>story_id story a b qs i p s.
       (story_id, story) \<in> set scenario_results \<and> error story \<noteq> Some True \<and>
       scenario_m1 story_id = Some a \<and> scenario_m2 story_id = Some b \<and>
       questions story = Some qs \<and> i < length qs \<and>
       calculate_log_score p (answer (qs ! i)) = Inr s \<Longrightarrow>
         (a (str i) = Some p \<longrightarrow>
            (\<exists>row. map_of (flash (all_scores report)) story_id = Some row \<and>
               map_of row (str i) = Some s)) \<and>
         (b (str i) = Some p \<longrightarrow>
            (\<exists>row. map_of (flash_lite (all_scores report)) story_id = Some row \<and>
               map_of row (str i) = Some s))"
    by blast
  from run have look: "map_of (story_avg_scores report) ''s1'' = Some (Some ((ln 0.8 + ln 0.7) / 2))"
    by (auto simp: scenario_report)
  from avg [OF look] look
  have r1: "\<exists>avg scores.
         map_of (story_avg_scores report) ''s1'' = Some avg \<and>
         map_of (flash (all_scores report)) ''s1'' = Some scores \<and>
         scores \<noteq> [] \<and> avg = np_mean (map Some (map snd scores))"
    by blast
  note r2 = same [OF e]
  from m ne a b q i sa
  have "(''s1'', scenario_story) \<in> set scenario_results \<and> error scenario_story \<noteq> Some True \<and>
       scenario_m1 ''s1'' = Some ?a \<and> scenario_m2 ''s1'' = Some ?b \<and>
       questions scenario_story = Some ?qs \<and> 1 < length ?qs \<and>
       calculate_log_score 0.3 (answer (?qs ! 1)) = Inr (ln 0.7)"
    by (intro conjI)
  from stored [OF this] pa
  have r3: "\<exists>row. map_of (flash (all_scores report)) ''s1'' = Some row \<and>
         map_of row (str 1) = Some (ln 0.7)"
    by blast
  from m ne a b q i sb
  have "(''s1'', scenario_story) \<in> set scenario_results \<and> error scenario_story \<noteq> Some True \<and>
       scenario_m1 ''s1'' = Some ?a \<and> scenario_m2 ''s1'' = Some ?b \<and>
       questions scenario_story = Some ?qs \<and> 1 < length ?qs \<and>
       calculate_log_score 0.4 (answer (?qs ! 1)) = Inr (ln 0.6)"
    by (intro conjI)
  from stored [OF this] pb
  have r4: "\<exists>row. map_of (flash_lite (all_scores report)) ''s1'' = Some row \<and>
         map_of row (str 1) = Some (ln 0.6)"
    by blast
  from run r1 r2 r3 r4
  have first: "\<exists>report.
      analyze_predictions scenario_results scenario_m1 scenario_m2 = Inr report \<and>
      (\<exists>avg scores.
         map_of (story_avg_scores report) ''s1'' = Some avg \<and>
         map_of (flash (all_scores report)) ''s1'' = Some scores \<and>
         scores \<noteq> [] \<and> avg = np_mean (map Some (map snd scores))) \<and>
      (\<exists>report'.
         analyze_predictions scenario_results scenario_m1 ?fl' = Inr report' \<and>
         story_avg_scores report' = story_avg_scores report) \<and>
      (\<exists>row. map_of (flash (all_scores report)) ''s1'' = Some row \<and>
         map_of row (str 1) = Some (ln 0.7)) \<and>
      (\<exists>row. map_of (flash_lite (all_scores report)) ''s1'' = Some row \<and>
         map_of row (str 1) = Some (ln 0.6))"
    by - (rule exI [of _ report], (intro conjI; assumption))
  note second = t [THEN conjunct2, THEN conjunct1, rule_format, of scenario_m2, OF c]
  from d e m ne a b q i sa pa sb pb c first second show ?thesis
    by (intro conjI)
qed

text \<open>
  Claim C2, as stated, fails: run on the scenario, the program stores the scores of \<open>m2\<close>
  in \<open>all_scores\<close> only, the story average is the mean of \<open>ln 0.8\<close> and \<open>ln 0.7\<close>, and that
  differs from the mean of the four pooled scores.
\<close>

theorem story_average_pools_counterexample:
  "analyze_predictions scenario_results scenario_m1 scenario_m2 =
   Inr \<lparr>all_scores =
          \<lparr>flash = [(''s1'', [(''0'', ln 0.8), (''1'', ln 0.7)])],
           flash_lite = [(''s1'', [(''0'', ln 0.6), (''1'', ln 0.6)])]\<rparr>,
        story_avg_scores = [(''s1'', np_mean [Some (ln 0.8), Some (ln 0.7)])],
        model_avg_scores =
          \<lparr>flash = np_mean [Some (ln 0.8), Some (ln 0.7)],
           flash_lite = np_mean [Some (ln 0.6), Some (ln 0.6)]\<rparr>,
        tag_avg_scores = [(''mystery'', np_mean [np_mean [Some (ln 0.8), Some (ln 0.7)]])],
        story_titles = [(''s1'', ''A'')]\<rparr> \<and>
   np_mean [Some (ln 0.8), Some (ln 0.7)] \<noteq>
   np_mean [Some (ln 0.8), Some (ln 0.7), Some (ln 0.6), Some (ln 0.6)]"
  using scenario_means_differ by (simp add: scenario_report np_mean_def)

text \<open>
  Claim C10. Every key of \<open>story_avg_scores\<close> is a key of \<open>all_scores["flash"]\<close>, and its
  average is the arithmetic mean of the values stored there (a non-empty list). The
  flash-lite forecasts matter only through the set of stories they cover: replacing them
  by any forecasts for the same stories leaves \<open>story_avg_scores\<close> unchanged.
\<close>

theorem story_average_from_flash:
  assumes "distinct (map fst results)"
  shows "\<exists>report.
    analyze_predictions results ff fl = Inr report \<and>
    (\<forall>story_id avg. map_of (story_avg_scores report) story_id = Some avg \<longrightarrow>
       (\<exists>scores. map_of (flash (all_scores report)) story_id = Some scores \<and>
          scores \<noteq> [] \<and>
          avg = np_mean (map Some (map snd scores)) \<and>
          avg = Some (sum_list (map snd scores) / real (length scores)))) \<and>
    (\<forall>fl'. dom fl' = dom fl \<longrightarrow>
       (\<exists>report'. analyze_predictions results ff fl' = Inr report' \<and>
          story_avg_scores report' = story_avg_scores report))"
proof -
  note d = assms
  let ?report = "projr (analyze_predictions results ff fl)"
  have run: "analyze_predictions results ff fl = Inr ?report"
    by (simp add: analyze_predictions_closed [OF d])
  have avg: "\<exists>scores. map_of (flash (all_scores ?report)) story_id = Some scores \<and>
      scores \<noteq> [] \<and> avg = np_mean (map Some (map snd scores)) \<and>
      avg = Some (sum_list (map snd scores) / real (length scores))"
    if "map_of (story_avg_scores ?report) story_id = Some avg" for story_id avg
  proof -
    let ?g = "\<lambda>item. map snd (flash_entries ff fl item)"
    from that have "map_option (\<lambda>s. np_mean (map Some s)) (map_of (rows ?g results) story_id) = Some avg"
      by (simp add: analyze_predictions_closed [OF d]
          map_of_map_snd [of "\<lambda>s. np_mean (map Some s)"])
    then obtain s where s: "map_of (rows ?g results) story_id = Some s"
      and a': "avg = np_mean (map Some s)"
      by auto
    from s obtain v where v: "map_of results story_id = Some v"
      and ne': "?g (story_id, v) \<noteq> []" and s': "s = ?g (story_id, v)"
      by (auto simp: map_of_rows [OF d] split: option.splits if_splits)
    from ne' have ne: "flash_entries ff fl (story_id, v) \<noteq> []"
      by simp
    from a' s' have a: "avg = np_mean (map Some (map snd (flash_entries ff fl (story_id, v))))"
      by simp
    from v ne have "map_of (flash (all_scores ?report)) story_id = Some (flash_entries ff fl (story_id, v))"
      by (simp add: analyze_predictions_closed [OF d] map_of_rows [OF d])
    moreover from ne
    have "np_mean (map Some (map snd (flash_entries ff fl (story_id, v)))) =
          Some (sum_list (map snd (flash_entries ff fl (story_id, v))) /
            real (length (flash_entries ff fl (story_id, v))))"
      by (subst np_mean_Some) simp
    with a
    have "avg = Some (sum_list (map snd (flash_entries ff fl (story_id, v))) /
            real (length (flash_entries ff fl (story_id, v))))"
      by simp
    ultimately show ?thesis using ne a by blast
  qed
  have same: "\<exists>report'. analyze_predictions results ff fl' = Inr report' \<and>
      story_avg_scores report' = story_avg_scores ?report" if "dom fl' = dom fl" for fl'
    by (simp add: analyze_predictions_closed [OF d] flash_entries_dom [OF that])
  from run avg same show ?thesis by blast
qed

theorem story_average_from_flash_witness:
  "distinct (map fst scenario_results) \<and>
   dom (scenario_m2(''s1'' \<mapsto> [''0'' \<mapsto> 0.1])) = dom scenario_m2 \<and>
   (\<exists>report avg.
      analyze_predictions scenario_results scenario_m1 scenario_m2 = Inr report \<and>
      map_of (story_avg_scores report) ''s1'' = Some avg \<and>
      (\<exists>scores. map_of (flash (all_scores report)) ''s1'' = Some scores \<and>
         scores \<noteq> [] \<and>
         avg = np_mean (map Some (map snd scores)) \<and>
         avg = Some (sum_list (map snd scores) / real (length scores))) \<and>
      (\<exists>report'.
         analyze_predictions scenario_results scenario_m1
           (scenario_m2(''s1'' \<mapsto> [''0'' \<mapsto> 0.1])) = Inr report' \<and>
         story_avg_scores report' = story_avg_scores report))"
proof -
  have d: "distinct (map fst scenario_results)"
    by (simp add: scenario_results_def)
  have e: "dom (scenario_m2(''s1'' \<mapsto> [''0'' \<mapsto> 0.1])) = dom scenario_m2"
    by (simp add: scenario_m2_def)
  from story_average_from_flash [OF d, of scenario_m1 scenario_m2]
  obtain report where run: "analyze_predictions scenario_results scenario_m1 scenario_m2 = Inr report"
    and avg: "\<And>story_id avg. map_of (story_avg_scores report) story_id = Some avg \<Longrightarrow>
       \<exists>scores. map_of (flash (all_scores report)) story_id = Some scores \<and>
          scores \<noteq> [] \<and>
          avg = np_mean (map Some (map snd scores)) \<and>
          avg = Some (sum_list (map snd scores) / real (length scores))"
    and same: "\<And>fl'. dom fl' = dom scenario_m2 \<Longrightarrow>
       \<exists>report'. analyze_predictions scenario_results scenario_m1 fl' = Inr report' \<and>
          story_avg_scores report' = story_avg_scores report"
    by blast
  from run have "map_of (story_avg_scores report) ''s1'' = Some (Some ((ln 0.8 + ln 0.7) / 2))"
    by (auto simp: scenario_report)
  from this avg [OF this] same [OF e] run d e show ?thesis
    by blast
qed

end
